theory Spec2Isabelle
  imports Complex_Main "HOL-Library.Option_ord"
begin

section \<open>Characters and strings as Python sees them\<close>

text \<open>
  The source is \<^verbatim>\<open>scripts/final_file.py\<close>. Python strings are modelled as
  \<^typ>\<open>string\<close>, a character being a code point below 256 (Latin-1). The character
  classes below are those of \<^verbatim>\<open>str.isspace\<close> (which \<^verbatim>\<open>strip\<close> and \<^verbatim>\<open>split\<close>
  use), of \<^verbatim>\<open>str.isdigit\<close> and of the regular expressions \<^verbatim>\<open>\d\<close> and
  \<^verbatim>\<open>[A-Za-z]\<close> on that range: the whitespace characters include the next-line
  control \<^verbatim>\<open>0x85\<close> and the no-break space \<^verbatim>\<open>0xA0\<close>, and \<^verbatim>\<open>str.isdigit\<close> is
  also true of the superscript digits \<^verbatim>\<open>0xB2\<close>, \<^verbatim>\<open>0xB3\<close> and \<^verbatim>\<open>0xB9\<close>, which
  neither \<^verbatim>\<open>\d\<close> nor \<^verbatim>\<open>int\<close> accepts. A finite Python float is modelled as an
  exact rational, so the binary rounding of IEEE arithmetic is outside the model; a
  missing value (\<^verbatim>\<open>None\<close>, \<^verbatim>\<open>NaN\<close>, \<^verbatim>\<open>pd.NA\<close>) is \<^term>\<open>None\<close>. The price
  column, where an infinite value changes what the program does, has a type of its own
  below.
\<close>

definition is_space :: "char \<Rightarrow> bool" where
  \<comment> \<open>\<^verbatim>\<open>c.isspace()\<close>\<close>
  "is_space c \<longleftrightarrow> c \<in> set [CHR 0x09, CHR 0x0A, CHR 0x0B, CHR 0x0C, CHR 0x0D,
                          CHR 0x1C, CHR 0x1D, CHR 0x1E, CHR 0x1F, CHR '' '',
                          CHR 0x85, CHR 0xA0]"

definition is_digit :: "char \<Rightarrow> bool" where
  \<comment> \<open>the class \<^verbatim>\<open>\d\<close> of a regular expression, and the digits \<^verbatim>\<open>int\<close> and
      \<^verbatim>\<open>float\<close> read\<close>
  "is_digit c \<longleftrightarrow> c \<in> set ''0123456789''"

definition py_isdigit :: "char \<Rightarrow> bool" where
  \<comment> \<open>\<^verbatim>\<open>c.isdigit()\<close>\<close>
  "py_isdigit c \<longleftrightarrow> is_digit c \<or> c \<in> set [CHR 0xB2, CHR 0xB3, CHR 0xB9]"

definition is_alpha :: "char \<Rightarrow> bool" where
  \<comment> \<open>the class \<^verbatim>\<open>[A-Za-z]\<close>\<close>
  "is_alpha c \<longleftrightarrow> c \<in> set ''abcdefghijklmnopqrstuvwxyzABCDEFGHIJKLMNOPQRSTUVWXYZ''"

definition upper_chars :: "char list" where
  "upper_chars = ''ABCDEFGHIJKLMNOPQRSTUVWXYZ'' @
       [CHR 0xC0, CHR 0xC1, CHR 0xC2, CHR 0xC3, CHR 0xC4, CHR 0xC5, CHR 0xC6, CHR 0xC7,
        CHR 0xC8, CHR 0xC9, CHR 0xCA, CHR 0xCB, CHR 0xCC, CHR 0xCD, CHR 0xCE, CHR 0xCF,
        CHR 0xD0, CHR 0xD1, CHR 0xD2, CHR 0xD3, CHR 0xD4, CHR 0xD5, CHR 0xD6, CHR 0xD8,
        CHR 0xD9, CHR 0xDA, CHR 0xDB, CHR 0xDC, CHR 0xDD, CHR 0xDE]"

definition lower_chars :: "char list" where
  "lower_chars = ''abcdefghijklmnopqrstuvwxyz'' @
       [CHR 0xE0, CHR 0xE1, CHR 0xE2, CHR 0xE3, CHR 0xE4, CHR 0xE5, CHR 0xE6, CHR 0xE7,
        CHR 0xE8, CHR 0xE9, CHR 0xEA, CHR 0xEB, CHR 0xEC, CHR 0xED, CHR 0xEE, CHR 0xEF,
        CHR 0xF0, CHR 0xF1, CHR 0xF2, CHR 0xF3, CHR 0xF4, CHR 0xF5, CHR 0xF6, CHR 0xF8,
        CHR 0xF9, CHR 0xFA, CHR 0xFB, CHR 0xFC, CHR 0xFD, CHR 0xFE]"

definition to_lower :: "char \<Rightarrow> char" where
  \<comment> \<open>\<^verbatim>\<open>c.lower()\<close>: the upper-case letters of ASCII and of Latin-1\<close>
  "to_lower c = (case map_of (zip upper_chars lower_chars) c of
                   Some l \<Rightarrow> l | None \<Rightarrow> c)"

definition lower :: "string \<Rightarrow> string" where
  \<comment> \<open>\<^verbatim>\<open>s.lower()\<close>\<close>
  "lower s = map to_lower s"

definition py_strip :: "string \<Rightarrow> string" where
  \<comment> \<open>\<^verbatim>\<open>s.strip()\<close>\<close>
  "py_strip s = rev (dropWhile is_space (rev (dropWhile is_space s)))"

fun split_ws :: "string \<Rightarrow> string \<Rightarrow> string list" where
  "split_ws w [] = (if w = [] then [] else [w])"
| "split_ws w (c # cs) =
     (if is_space c then (if w = [] then split_ws [] cs else w # split_ws [] cs)
      else split_ws (w @ [c]) cs)"

definition py_split :: "string \<Rightarrow> string list" where
  \<comment> \<open>\<^verbatim>\<open>s.split()\<close>: the maximal runs of non-whitespace characters\<close>
  "py_split s = split_ws [] s"

fun join_sp :: "string list \<Rightarrow> string" where
  \<comment> \<open>\<^verbatim>\<open>" ".join(ws)\<close>\<close>
  "join_sp [] = []"
| "join_sp [w] = w"
| "join_sp (w # ws) = w @ '' '' @ join_sp ws"

fun re_split :: "string \<Rightarrow> string list" where
  \<comment> \<open>\<^verbatim>\<open>re.split(r'[;,]', s)\<close>: every separator ends a token, empty tokens are kept\<close>
  "re_split [] = [[]]"
| "re_split (c # cs) =
     (if c = CHR '';'' \<or> c = CHR '','' then [] # re_split cs
      else (case re_split cs of [] \<Rightarrow> [[c]] | t # ts \<Rightarrow> (c # t) # ts))"

fun is_prefix :: "string \<Rightarrow> string \<Rightarrow> bool" where
  "is_prefix [] s = True"
| "is_prefix (p # ps) [] = False"
| "is_prefix (p # ps) (c # cs) = (p = c \<and> is_prefix ps cs)"

fun contains_sub :: "string \<Rightarrow> string \<Rightarrow> bool" where
  \<comment> \<open>\<^verbatim>\<open>p in s\<close>\<close>
  "contains_sub p [] = (p = [])"
| "contains_sub p (c # cs) = (is_prefix p (c # cs) \<or> contains_sub p cs)"

definition digit_val :: "char \<Rightarrow> int" where
  "digit_val c = int (of_char c) - 48"

definition digits_val :: "string \<Rightarrow> int" where
  "digits_val s = foldl (\<lambda>a c. 10 * a + digit_val c) 0 s"

definition max_str_digits :: nat where
  \<comment> \<open>\<^verbatim>\<open>sys.get_int_max_str_digits()\<close>, the default of CPython 3.11\<close>
  "max_str_digits = 4300"

definition py_int :: "string \<Rightarrow> int option" where
  \<comment> \<open>\<^verbatim>\<open>int(s)\<close> on a string without whitespace, sign or underscore, which is what
      the normalizer returns; \<^term>\<open>None\<close> is \<^verbatim>\<open>ValueError\<close>, raised on a character
      that is no decimal digit and on more than \<^term>\<open>max_str_digits\<close> digits\<close>
  "py_int s = (if s \<noteq> [] \<and> list_all is_digit s \<and> length s \<le> max_str_digits
               then Some (digits_val s) else None)"

definition py_float :: "string \<Rightarrow> rat option" where
  \<comment> \<open>\<^verbatim>\<open>float(s)\<close> on the numerals \<^verbatim>\<open>\d+(\.\d+)?\<close>, as the exact decimal value
      (\<^verbatim>\<open>float\<close> has no limit on the number of digits); \<^term>\<open>None\<close> is
      \<^verbatim>\<open>ValueError\<close>\<close>
  "py_float s =
     (let ds = takeWhile is_digit s; rest = dropWhile is_digit s in
      if ds = [] then None
      else if rest = [] then Some (of_int (digits_val ds))
      else (case rest of
              c # fs \<Rightarrow>
                if c = CHR ''.'' \<and> fs \<noteq> [] \<and> list_all is_digit fs
                then Some (of_int (digits_val ds) + of_int (digits_val fs) / 10 ^ length fs)
                else None
            | [] \<Rightarrow> None))"

section \<open>Numeric token normalizer\<close>

definition int_or_whole_float :: "string \<Rightarrow> bool" where
  \<comment> \<open>\<^verbatim>\<open>_INT_OR_WHOLE_FLOAT.fullmatch(s)\<close> for \<^verbatim>\<open>^\d+(?:\.0+)?$\<close>\<close>
  "int_or_whole_float s =
     (let ds = takeWhile is_digit s; rest = dropWhile is_digit s in
      ds \<noteq> [] \<and>
      (case rest of
         [] \<Rightarrow> True
       | c # zs \<Rightarrow> c = CHR ''.'' \<and> zs \<noteq> [] \<and> list_all (\<lambda>z. z = CHR ''0'') zs))"

definition normalize_numeric_token :: "string option \<Rightarrow> string option" where
  "normalize_numeric_token s0 =
     (case s0 of
        None \<Rightarrow> None
      | Some s1 \<Rightarrow>
          (let s = py_strip s1 in
           if s = [] then None
           else if list_all py_isdigit s then Some s
           else if int_or_whole_float s then Some (takeWhile (\<lambda>c. c \<noteq> CHR ''.'') s)
           else None))"

fun first_norm :: "string list \<Rightarrow> string option" where
  \<comment> \<open>the \<^verbatim>\<open>for token in ...\<close> loop of \<^verbatim>\<open>first_valid_numeric_from_list\<close>\<close>
  "first_norm [] = None"
| "first_norm (t # ts) =
     (case normalize_numeric_token (Some t) of
        Some n \<Rightarrow> Some n
      | None \<Rightarrow> first_norm ts)"

definition first_valid_numeric_from_list :: "string option \<Rightarrow> string option" where
  "first_valid_numeric_from_list s0 =
     (case s0 of None \<Rightarrow> None | Some s \<Rightarrow> first_norm (re_split s))"

section \<open>Size and unit extraction\<close>

definition allowed :: "string list" where
  "allowed = [''g'', ''lb'', ''gr'', ''kg'', ''pk'', ''pack'', ''each'', ''oz'', ''mg'', ''ml'', ''l'']"

definition match_size_token :: "string \<Rightarrow> (string \<times> string) option" where
  \<comment> \<open>\<^verbatim>\<open>re.match(r'^(\d+(?:\.\d+)?)([A-Za-z]+)$', t)\<close>, giving groups 1 and 2. Every
      quantifier is greedy and no shorter choice can succeed, so the match is
      deterministic; \<^verbatim>\<open>$\<close> also matches before one final newline.\<close>
  "match_size_token t =
     (let ds = takeWhile is_digit t; r1 = dropWhile is_digit t in
      if ds = [] then None
      else
        let (num, r2) =
              (case r1 of
                 [] \<Rightarrow> (ds, r1)
               | c # r \<Rightarrow>
                   if c = CHR ''.'' \<and> takeWhile is_digit r \<noteq> []
                   then (ds @ c # takeWhile is_digit r, dropWhile is_digit r)
                   else (ds, r1));
            ls = takeWhile is_alpha r2;
            r3 = dropWhile is_alpha r2
        in if ls \<noteq> [] \<and> (r3 = [] \<or> r3 = [CHR 0x0A]) then Some (num, ls) else None)"

definition size_of_token :: "string \<Rightarrow> (rat \<times> string) option" where
  \<comment> \<open>the block the source repeats after each \<^verbatim>\<open>re.match\<close>: parse the number
      (1 on \<^verbatim>\<open>ValueError\<close>), lower-case the unit, accept it if it is allowed\<close>
  "size_of_token t =
     (case match_size_token t of
        None \<Rightarrow> None
      | Some (g1, g2) \<Rightarrow>
          (let num = (case py_float g1 of Some v \<Rightarrow> v | None \<Rightarrow> 1);
               unit = lower g2
           in if unit \<in> set allowed then Some (num, unit) else None))"

definition extract_size_and_unit :: "string option \<Rightarrow> string option \<times> rat \<times> string" where
  \<comment> \<open>the argument is \<^term>\<open>None\<close> when the cell is not a \<^verbatim>\<open>str\<close>\<close>
  "extract_size_and_unit name0 =
     (case name0 of
        None \<Rightarrow> (None, 1, ''each'')
      | Some nm \<Rightarrow>
          (let words = py_split (py_strip nm) in
           if words = [] then (Some nm, 1, ''each'')
           else
             (case (if lower (last words) = ''each'' \<and> 2 \<le> length words
                    then size_of_token (words ! (length words - 2)) else None) of
                Some (num, unit) \<Rightarrow> (Some (join_sp (take (length words - 2) words)), num, unit)
              | None \<Rightarrow>
                  (case size_of_token (last words) of
                     Some (num, unit) \<Rightarrow> (Some (join_sp (butlast words)), num, unit)
                   | None \<Rightarrow> (Some nm, 1, ''each'')))))"

section \<open>Lookup-code selection\<close>

definition truthy :: "string option \<Rightarrow> bool" where
  \<comment> \<open>Python truth value of a string or \<^verbatim>\<open>None\<close>\<close>
  "truthy v = (case v of None \<Rightarrow> False | Some s \<Rightarrow> s \<noteq> [])"

definition side_token :: "string \<Rightarrow> string" where
  \<comment> \<open>\<^verbatim>\<open>first_valid_numeric_from_list(s) or normalize_numeric_token(s) or ""\<close>\<close>
  "side_token s =
     (case first_valid_numeric_from_list (Some s) of
        Some t \<Rightarrow> if t \<noteq> [] then t
                  else (case normalize_numeric_token (Some s) of
                          Some u \<Rightarrow> u | None \<Rightarrow> [])
      | None \<Rightarrow> (case normalize_numeric_token (Some s) of
                   Some u \<Rightarrow> u | None \<Rightarrow> []))"

definition side_int :: "string \<Rightarrow> int option" where
  \<comment> \<open>\<^verbatim>\<open>try: int(pc) if pc else None / except: None\<close>: the \<^verbatim>\<open>ValueError\<close> of
      \<^verbatim>\<open>int\<close> is caught and gives \<^verbatim>\<open>None\<close>\<close>
  "side_int t = (if t \<noteq> [] then py_int t else None)"

definition get_lookup_code :: "string option \<Rightarrow> string option \<Rightarrow> string" where
  \<comment> \<open>the two arguments are \<^verbatim>\<open>row[product_code_col]\<close> and \<^verbatim>\<open>row[sku_col]\<close>\<close>
  "get_lookup_code code_cell sku_cell =
     (let pc_raw = (case code_cell of None \<Rightarrow> [] | Some s \<Rightarrow> s);
          sku_raw = (case sku_cell of None \<Rightarrow> [] | Some s \<Rightarrow> s);
          pc_str = py_strip pc_raw;
          sku_str = py_strip sku_raw;
          pc = side_token pc_str;
          sk = side_token sku_str;
          pc_int = side_int pc;
          sk_int = side_int sk
      in case (pc_int, sk_int) of
           (Some a, Some b) \<Rightarrow> if a \<ge> b then pc else sk
         | (Some a, None) \<Rightarrow> pc
         | (None, Some b) \<Rightarrow> sk
         | (None, None) \<Rightarrow> [])"

section \<open>Retail rounding\<close>

definition round_half_even :: "rat \<Rightarrow> int" where
  "round_half_even q =
     (let f = \<lfloor>q\<rfloor>; d = q - of_int f in
      if d < 1 / 2 then f else if 1 / 2 < d then f + 1 else if even f then f else f + 1)"

definition round2 :: "rat \<Rightarrow> rat" where
  \<comment> \<open>\<^verbatim>\<open>round(x, 2)\<close>\<close>
  "round2 q = of_int (round_half_even (q * 100)) / 100"

definition cents :: "rat list" where
  "cents = [29 / 100, 49 / 100, 79 / 100, 99 / 100]"

definition epsilon :: rat where
  \<comment> \<open>\<^verbatim>\<open>1e-9\<close>\<close>
  "epsilon = 1 / 10 ^ 9"

definition retail_round :: "rat option \<Rightarrow> rat option" where
  \<comment> \<open>\<^verbatim>\<open>retail_round\<close> on \<^verbatim>\<open>NaN\<close> (\<^term>\<open>None\<close>) and on a finite float\<close>
  "retail_round x0 =
     (case x0 of
        None \<Rightarrow> None
      | Some x \<Rightarrow>
          (let base = \<lfloor>x\<rfloor>; fractional = x - of_int base in
           case find (\<lambda>c. fractional \<le> c + epsilon) cents of
             Some c \<Rightarrow> Some (round2 (of_int base + c))
           | None \<Rightarrow> Some (round2 (of_int base + 1 + 29 / 100))))"

datatype error = FileNotFoundError | KeyError "string list" | OverflowError

datatype pyfloat = Finite rat | NaN | PosInf | NegInf

definition retail_round_float :: "pyfloat \<Rightarrow> error + rat option" where
  \<comment> \<open>\<^verbatim>\<open>retail_round\<close> on any float. \<^verbatim>\<open>pd.isna\<close> is false of an infinity, and
      \<^verbatim>\<open>math.floor\<close> of an infinity raises \<^verbatim>\<open>OverflowError\<close>, which nothing catches\<close>
  "retail_round_float x =
     (case x of
        NaN \<Rightarrow> Inr (retail_round None)
      | Finite q \<Rightarrow> Inr (retail_round (Some q))
      | PosInf \<Rightarrow> Inl OverflowError
      | NegInf \<Rightarrow> Inl OverflowError)"

section \<open>The transform\<close>

record RawItemRecord =
  name :: "string option"
  code :: "string option"
  sku :: "string option"
  price :: pyfloat
  priceType :: string
  unit_count :: "int option"

text \<open>
  A row of the input sheet. \<^term>\<open>name\<close> is \<^term>\<open>None\<close> for a cell that holds no
  string; \<^term>\<open>code\<close> and \<^term>\<open>sku\<close> are read with the nullable string type, so a
  missing cell is \<^term>\<open>None\<close>; \<^term>\<open>price\<close> is the cell after
  \<^verbatim>\<open>pd.to_numeric(..., errors="coerce")\<close>: \<^term>\<open>NaN\<close> for a missing or non-numeric
  price, an infinity for a cell such as the text \<^verbatim>\<open>inf\<close>; \<^term>\<open>priceType\<close> is the cell as \<^verbatim>\<open>str\<close> renders it.
\<close>

record table =
  columns :: "string list"
  rows :: "RawItemRecord list"

record CanonicalInventoryRecord =
  cost_price_per_unit :: "rat option"
  cost_unit :: string
  lookup_code :: string
  out_name :: "string option"
  out_size :: rat
  size_uom :: string
  out_unit_count :: "int option"
  alcoholic :: bool

definition required :: "string list" where
  "required = [''name'', ''code'', ''sku'', ''price'', ''priceType'']"

definition name_str :: "string option \<Rightarrow> string" where
  \<comment> \<open>\<^verbatim>\<open>astype(str)\<close> on the name column: a missing cell reads \<^verbatim>\<open>nan\<close>\<close>
  "name_str n = (case n of None \<Rightarrow> ''nan'' | Some s \<Rightarrow> s)"

definition bulk_name :: "string \<Rightarrow> bool" where
  \<comment> \<open>\<^verbatim>\<open>str.contains(r'case|dozen', case=False)\<close>\<close>
  "bulk_name s \<longleftrightarrow> contains_sub ''case'' (lower s) \<or> contains_sub ''dozen'' (lower s)"

definition stage_A :: "RawItemRecord list \<Rightarrow> RawItemRecord list" where
  "stage_A rs = filter (\<lambda>r. \<not> bulk_name (name_str (name r))) rs"

definition is_blank :: "string option \<Rightarrow> bool" where
  \<comment> \<open>\<^verbatim>\<open>isna() | (astype(str).str.strip() == "")\<close>\<close>
  "is_blank v = (case v of None \<Rightarrow> True | Some s \<Rightarrow> py_strip s = [])"

definition na_str :: "string option \<Rightarrow> string" where
  \<comment> \<open>\<^verbatim>\<open>str(v)\<close> for a nullable string cell: \<^verbatim>\<open>str(pd.NA)\<close> is \<^verbatim>\<open><NA>\<close>\<close>
  "na_str v = (case v of None \<Rightarrow> ''<NA>'' | Some s \<Rightarrow> s)"

definition valid_row :: "RawItemRecord \<Rightarrow> bool" where
  \<comment> \<open>\<^verbatim>\<open>_valid_row\<close>\<close>
  "valid_row r \<longleftrightarrow>
     \<not> (is_blank (code r) \<and> normalize_numeric_token (Some (na_str (sku r))) = None)"

definition stage_B :: "RawItemRecord list \<Rightarrow> RawItemRecord list" where
  "stage_B rs =
     filter valid_row (filter (\<lambda>r. \<not> (is_blank (code r) \<and> is_blank (sku r))) rs)"

definition map_cost_unit :: "string \<Rightarrow> string" where
  "map_cost_unit x =
     (let s = lower (py_strip x) in
      if s \<in> set [''fixed'', ''fix'', ''fixed price'', ''fixed_price'', ''fixedprice''] then ''each''
      else if s \<in> set [''per unit'', ''per_unit'', ''perunit''] then ''lb''
      else [])"

definition markup :: "pyfloat \<Rightarrow> pyfloat" where
  \<comment> \<open>\<^verbatim>\<open>x * 1.13\<close>: the exact product of a finite price (a product too large for a
      float, which Python makes an infinity, is outside the model), and an infinity or
      \<^verbatim>\<open>NaN\<close> unchanged\<close>
  "markup x = (case x of Finite q \<Rightarrow> Finite (q * (113 / 100)) | NaN \<Rightarrow> NaN
               | PosInf \<Rightarrow> PosInf | NegInf \<Rightarrow> NegInf)"

fun apply_series :: "('a \<Rightarrow> error + 'b) \<Rightarrow> 'a list \<Rightarrow> error + 'b list" where
  \<comment> \<open>\<^verbatim>\<open>Series.apply(f)\<close>: the values in row order, or the first exception\<close>
  "apply_series f [] = Inr []"
| "apply_series f (x # xs) =
     (case f x of
        Inl e \<Rightarrow> Inl e
      | Inr y \<Rightarrow> (case apply_series f xs of Inl e \<Rightarrow> Inl e | Inr ys \<Rightarrow> Inr (y # ys)))"

definition derive :: "bool \<Rightarrow> RawItemRecord \<Rightarrow> rat option \<Rightarrow> CanonicalInventoryRecord" where
  \<comment> \<open>the columns of \<^verbatim>\<open>out\<close> for one row, given the value of
      \<^verbatim>\<open>cost_price_per_unit\<close> computed for it; the flag says whether the sheet has a
      \<^verbatim>\<open>unit_count\<close> column\<close>
  "derive has_uc r cost =
     (case extract_size_and_unit (name r) of
        (cleaned, sz, uom) \<Rightarrow>
          \<lparr> cost_price_per_unit = cost,
            cost_unit = map_cost_unit (priceType r),
            lookup_code = get_lookup_code (code r) (sku r),
            out_name = cleaned,
            out_size = sz,
            size_uom = uom,
            out_unit_count = (if has_uc then unit_count r else None),
            alcoholic = False \<rparr>)"

definition stage_D :: "CanonicalInventoryRecord \<Rightarrow> CanonicalInventoryRecord" where
  \<comment> \<open>pack reconciliation on the rows of \<^verbatim>\<open>mask_pk\<close>\<close>
  "stage_D o1 =
     (if size_uom o1 \<in> set [''pk'', ''pack'']
      then o1 \<lparr> out_unit_count :=
                  (case out_unit_count o1 of
                     None \<Rightarrow> Some (round_half_even (out_size o1))
                   | Some u \<Rightarrow> Some u),
                out_size := 1 \<rparr>
      else o1)"

definition stage_F :: "CanonicalInventoryRecord list \<Rightarrow> CanonicalInventoryRecord list" where
  "stage_F os = filter (\<lambda>o1. py_strip (lookup_code o1) \<noteq> []) os"

definition price_for_rank :: "CanonicalInventoryRecord \<Rightarrow> rat option" where
  \<comment> \<open>\<^verbatim>\<open>pd.to_numeric(..., errors="coerce").fillna(float("-inf"))\<close>: in the order on
      \<^typ>\<open>rat option\<close> the value \<^term>\<open>None\<close> lies below every number, as minus
      infinity does\<close>
  "price_for_rank o1 = cost_price_per_unit o1"

definition rank_first :: "CanonicalInventoryRecord list \<Rightarrow> nat \<Rightarrow> nat" where
  \<comment> \<open>\<^verbatim>\<open>groupby("lookup_code")[...].rank(method="first", ascending=False)\<close> at row
      \<open>i\<close>: one more than the rows of the group with a greater key, plus the earlier
      rows of the group with an equal key\<close>
  "rank_first work i =
     Suc (length (filter (\<lambda>j. lookup_code (work ! j) = lookup_code (work ! i) \<and>
                              price_for_rank (work ! i) < price_for_rank (work ! j))
                    [0..<length work])
          + length (filter (\<lambda>j. lookup_code (work ! j) = lookup_code (work ! i) \<and>
                                price_for_rank (work ! j) = price_for_rank (work ! i))
                      [0..<i]))"

definition kept :: "CanonicalInventoryRecord list \<Rightarrow> nat list" where
  "kept work = filter (\<lambda>i. rank_first work i = 1) [0..<length work]"

definition stage_G :: "CanonicalInventoryRecord list \<Rightarrow> CanonicalInventoryRecord list" where
  \<comment> \<open>\<^verbatim>\<open>work[work["_rank"] == 1]\<close>\<close>
  "stage_G work = map (\<lambda>i. work ! i) (kept work)"

definition transform :: "table \<Rightarrow> error + CanonicalInventoryRecord list" where
  \<comment> \<open>the body of \<^verbatim>\<open>process_mapped_items\<close> after the column check: the price
      column is computed first, and an exception raised there ends the call\<close>
  "transform df =
     (let df_f = stage_B (stage_A (rows df)) in
      case apply_series retail_round_float (map (\<lambda>r. markup (price r)) df_f) of
        Inl e \<Rightarrow> Inl e
      | Inr costs \<Rightarrow>
          Inr (stage_G (stage_F
                 (map (\<lambda>(r, cost). stage_D (derive (''unit_count'' \<in> set (columns df)) r cost))
                    (zip df_f costs)))))"

definition process_mapped_items :: "table option \<Rightarrow> error + CanonicalInventoryRecord list" where
  \<comment> \<open>the argument is the sheet read from \<^verbatim>\<open>input_file\<close>, \<^term>\<open>None\<close> when the file
      does not exist\<close>
  "process_mapped_items input =
     (case input of
        None \<Rightarrow> Inl FileNotFoundError
      | Some df \<Rightarrow>
          (let missing = filter (\<lambda>c. c \<notin> set (columns df)) required in
           if missing \<noteq> [] then Inl (KeyError missing) else transform df))"

section \<open>The extraction rules in the specification's words\<close>

text \<open>
  The three rules of the size and unit extractor as the specification states them, kept
  apart from \<^term>\<open>extract_size_and_unit\<close>, which is translated from the source. The
  shape of the number is a parameter: the specification says digits, the regular
  expression of the source also accepts a decimal fraction.
\<close>

definition all_digits :: "string \<Rightarrow> bool" where
  "all_digits s \<longleftrightarrow> s \<noteq> [] \<and> list_all is_digit s"

definition decimal_numeral :: "string \<Rightarrow> bool" where
  "decimal_numeral s \<longleftrightarrow>
     all_digits s \<or> (\<exists>ds fs. s = ds @ CHR ''.'' # fs \<and> all_digits ds \<and> all_digits fs)"

definition spec_token_shape :: "(string \<Rightarrow> bool) \<Rightarrow> string \<Rightarrow> string \<Rightarrow> string \<Rightarrow> bool" where
  \<comment> \<open>the word is a number followed by letters, and the letters are an allowed unit\<close>
  "spec_token_shape nshape w num ls \<longleftrightarrow>
     w = num @ ls \<and> nshape num \<and> ls \<noteq> [] \<and> list_all is_alpha ls \<and> lower ls \<in> set allowed"

definition parsed_number :: "string \<Rightarrow> rat" where
  \<comment> \<open>the parsed number, 1 if the text does not parse\<close>
  "parsed_number num = (case py_float num of Some v \<Rightarrow> v | None \<Rightarrow> 1)"

definition spec_rule1 ::
  "(string \<Rightarrow> bool) \<Rightarrow> string \<Rightarrow> string list \<Rightarrow> string \<Rightarrow> string \<Rightarrow> bool" where
  \<comment> \<open>rule 1: the last word is \<^verbatim>\<open>each\<close> and the word before it is a size token\<close>
  "spec_rule1 nshape nm ws num ls \<longleftrightarrow>
     (\<exists>w e. py_split nm = ws @ [w, e] \<and> lower e = ''each'' \<and> spec_token_shape nshape w num ls)"

definition spec_rule2 ::
  "(string \<Rightarrow> bool) \<Rightarrow> string \<Rightarrow> string list \<Rightarrow> string \<Rightarrow> string \<Rightarrow> bool" where
  \<comment> \<open>rule 2: the last word is a size token\<close>
  "spec_rule2 nshape nm ws num ls \<longleftrightarrow>
     (\<exists>w. py_split nm = ws @ [w] \<and> spec_token_shape nshape w num ls)"

section \<open>The normalizer's shapes\<close>

lemma dot_not_digit: "\<not> is_digit (CHR ''.'')"
  by (simp add: is_digit_def)


lemma list_all_py_isdigit: "list_all is_digit s \<Longrightarrow> list_all py_isdigit s"
  by (induction s) (simp_all add: py_isdigit_def)

lemma takeWhile_digits_dot:
  "list_all is_digit ds \<Longrightarrow> takeWhile is_digit (ds @ CHR ''.'' # zs) = ds"
  by (induction ds) (simp_all add: dot_not_digit)

lemma dropWhile_digits_dot:
  "list_all is_digit ds \<Longrightarrow> dropWhile is_digit (ds @ CHR ''.'' # zs) = CHR ''.'' # zs"
  by (induction ds) (simp_all add: dot_not_digit)

lemma takeWhile_not_dot:
  "list_all is_digit ds \<Longrightarrow> takeWhile (\<lambda>c. c \<noteq> CHR ''.'') (ds @ CHR ''.'' # zs) = ds"
  by (induction ds) (auto simp: dot_not_digit)

lemma int_or_whole_float_iff:
  "int_or_whole_float s \<longleftrightarrow>
     (s \<noteq> [] \<and> list_all is_digit s) \<or>
     (\<exists>ds zs. s = ds @ CHR ''.'' # zs \<and> ds \<noteq> [] \<and> list_all is_digit ds \<and>
              zs \<noteq> [] \<and> list_all (\<lambda>z. z = CHR ''0'') zs)"
  (is "?L \<longleftrightarrow> ?A \<or> ?B")
proof
  assume L: ?L
  let ?ds = "takeWhile is_digit s" and ?rest = "dropWhile is_digit s"
  from L have ne: "?ds \<noteq> []" by (simp add: int_or_whole_float_def Let_def)
  have dd: "list_all is_digit ?ds" by (simp add: list_all_iff) (meson set_takeWhileD)
  show "?A \<or> ?B"
  proof (cases ?rest)
    case Nil
    then have "s = ?ds" by (metis append_Nil2 takeWhile_dropWhile_id)
    then show ?thesis using ne dd by metis
  next
    case (Cons c zs)
    with L have "c = CHR ''.'' \<and> zs \<noteq> [] \<and> list_all (\<lambda>z. z = CHR ''0'') zs"
      by (simp add: int_or_whole_float_def Let_def)
    moreover have "s = ?ds @ c # zs" by (metis Cons takeWhile_dropWhile_id)
    ultimately show ?thesis using ne dd by blast
  qed
next
  assume "?A \<or> ?B"
  then show ?L
  proof
    assume ?A
    then have tw: "takeWhile is_digit s = s" and dw: "dropWhile is_digit s = []"
      by (metis list_all_iff takeWhile_eq_all_conv) (metis \<open>?A\<close> list_all_iff dropWhile_eq_Nil_conv)
    show ?L unfolding int_or_whole_float_def Let_def tw dw using \<open>?A\<close> by simp
  next
    assume ?B
    then obtain ds zs where h: "s = ds @ CHR ''.'' # zs" "ds \<noteq> []" "list_all is_digit ds"
      "zs \<noteq> []" "list_all (\<lambda>z. z = CHR ''0'') zs" by blast
    then show ?L
      by (simp add: int_or_whole_float_def takeWhile_digits_dot dropWhile_digits_dot)
  qed
qed



section \<open>Stage B\<close>

lemma normalize_na_str:
  "normalize_numeric_token (Some (na_str v)) = None \<longleftrightarrow> normalize_numeric_token v = None"
proof (cases v)
  case None
  have "normalize_numeric_token (Some ''<NA>'') = None"
    by (simp add: normalize_numeric_token_def py_strip_def is_space_def py_isdigit_def
        is_digit_def int_or_whole_float_def)
  with None show ?thesis by (simp add: na_str_def normalize_numeric_token_def)
next
  case (Some s)
  then show ?thesis by (simp add: na_str_def)
qed

text \<open>
  C7. Stage B keeps exactly the rows that are not dropped, and a row is dropped exactly when
  code and sku are both blank, or code is blank and the normalizer yields nothing for sku. A
  cell is blank when it is missing or empty after \<^verbatim>\<open>str.strip\<close>, which also removes the
  no-break space and the next-line control.
\<close>

theorem stage_B_drops_exactly:
  "stage_B rs =
     filter (\<lambda>r. \<not> ((is_blank (code r) \<and> is_blank (sku r)) \<or>
                     (is_blank (code r) \<and> normalize_numeric_token (sku r) = None))) rs"
  unfolding stage_B_def valid_row_def normalize_na_str filter_filter
  by (rule filter_cong) auto

theorem stage_B_drops_exactly_witness:
  "stage_B [\<lparr>name = Some ''A'', code = None, sku = Some ''  '', price = NaN, priceType = [], unit_count = None\<rparr>,
            \<lparr>name = Some ''B'', code = Some '' '', sku = Some ''7x'', price = NaN, priceType = [], unit_count = None\<rparr>,
            \<lparr>name = Some ''C'', code = None, sku = Some ''77.0'', price = NaN, priceType = [], unit_count = None\<rparr>,
            \<lparr>name = Some ''D'', code = Some ''abc'', sku = None, price = NaN, priceType = [], unit_count = None\<rparr>,
            \<lparr>name = Some ''E'', code = Some [CHR 0xA0], sku = Some ''abc'', price = NaN, priceType = [], unit_count = None\<rparr>,
            \<lparr>name = Some ''F'', code = None, sku = Some (''77'' @ [CHR 0xA0]), price = NaN, priceType = [], unit_count = None\<rparr>,
            \<lparr>name = Some ''G'', code = Some [CHR 0x85], sku = Some [CHR 0xB2], price = NaN, priceType = [], unit_count = None\<rparr>]
   = [\<lparr>name = Some ''C'', code = None, sku = Some ''77.0'', price = NaN, priceType = [], unit_count = None\<rparr>,
      \<lparr>name = Some ''D'', code = Some ''abc'', sku = None, price = NaN, priceType = [], unit_count = None\<rparr>,
      \<lparr>name = Some ''F'', code = None, sku = Some (''77'' @ [CHR 0xA0]), price = NaN, priceType = [], unit_count = None\<rparr>,
      \<lparr>name = Some ''G'', code = Some [CHR 0x85], sku = Some [CHR 0xB2], price = NaN, priceType = [], unit_count = None\<rparr>]"
  unfolding stage_B_drops_exactly
  by (simp add: is_blank_def normalize_numeric_token_def py_strip_def is_space_def py_isdigit_def
      is_digit_def int_or_whole_float_def)

section \<open>Errors\<close>

lemma floor_rat_numeral_divide:
  "\<lfloor>numeral a / numeral b :: rat\<rfloor> = numeral a div numeral b"
  by (metis floor_divide_of_int_eq of_int_numeral)

lemma apply_series_Inl:
  "apply_series retail_round_float xs = Inl e \<Longrightarrow> e = OverflowError"
proof (induction xs)
  case Nil
  then show ?case by simp
next
  case (Cons x xs)
  show ?case
  proof (cases "retail_round_float x")
    case (Inl e')
    then have "e' = OverflowError" by (cases x) (simp_all add: retail_round_float_def)
    with Inl Cons.prems show ?thesis by simp
  next
    case (Inr c)
    with Cons show ?thesis by (cases "apply_series retail_round_float xs") simp_all
  qed
qed

lemma apply_series_infinite:
  "x \<in> set xs \<Longrightarrow> x = PosInf \<or> x = NegInf \<Longrightarrow>
   apply_series retail_round_float xs = Inl OverflowError"
proof (induction xs)
  case Nil
  then show ?case by simp
next
  case (Cons y ys)
  show ?case
  proof (cases "retail_round_float y")
    case (Inl e)
    then have "apply_series retail_round_float (y # ys) = Inl e" by simp
    then show ?thesis using apply_series_Inl by blast
  next
    case (Inr c)
    then have "y \<noteq> PosInf" "y \<noteq> NegInf" by (auto simp: retail_round_float_def)
    with Cons.prems have "x \<in> set ys" by auto
    with Cons have "apply_series retail_round_float ys = Inl OverflowError" by blast
    with Inr show ?thesis by simp
  qed
qed

lemma apply_series_Inr:
  "apply_series f xs = Inr ys \<Longrightarrow> length ys = length xs \<and> (\<forall>i<length xs. f (xs ! i) = Inr (ys ! i))"
proof (induction xs arbitrary: ys)
  case Nil
  then show ?case by simp
next
  case (Cons x xs)
  from Cons.prems obtain y zs where y: "f x = Inr y" and zs: "apply_series f xs = Inr zs"
    and ys: "ys = y # zs"
    by (auto split: sum.splits)
  from Cons.IH [OF zs] have "length zs = length xs" "\<forall>i<length xs. f (xs ! i) = Inr (zs ! i)"
    by simp_all
  then show ?case using y ys by (auto simp: nth_Cons split: nat.splits)
qed

lemma markup_infinite: "x = PosInf \<or> x = NegInf \<Longrightarrow> markup x = PosInf \<or> markup x = NegInf"
  by (auto simp: markup_def)

lemma transform_infinite_price:
  assumes "r \<in> set (stage_B (stage_A (rows df)))" and "price r = PosInf \<or> price r = NegInf"
  shows "transform df = Inl OverflowError"
proof -
  have "markup (price r) \<in> set (map (\<lambda>r. markup (price r)) (stage_B (stage_A (rows df))))"
    using assms(1) by simp
  then have "apply_series retail_round_float
               (map (\<lambda>r. markup (price r)) (stage_B (stage_A (rows df)))) = Inl OverflowError"
    using apply_series_infinite markup_infinite [OF assms(2)] by blast
  then show ?thesis by (simp add: transform_def)
qed

text \<open>
  C8. When a required column is missing the transform stops with the configuration error
  that lists the missing columns, whatever the rows are. When every required column is
  present a row can still stop it: if a row that passes stages A and B has an infinite
  price, \<^verbatim>\<open>retail_round\<close> raises \<^verbatim>\<open>OverflowError\<close> and the call returns no output.
  The sheet of one row with code \<^verbatim>\<open>1\<close> and price \<^verbatim>\<open>inf\<close> is such an input. An
  infinite price on a row that stage A or stage B drops is never rounded and stops nothing.
\<close>

theorem process_mapped_items_infinite_price:
  "(\<forall>cols rs. \<not> set required \<subseteq> set cols \<longrightarrow>
      process_mapped_items (Some \<lparr>columns = cols, rows = rs\<rparr>) =
        Inl (KeyError (filter (\<lambda>c. c \<notin> set cols) required)) \<and>
      filter (\<lambda>c. c \<notin> set cols) required \<noteq> []) \<and>
   (\<forall>cols rs r. set required \<subseteq> set cols \<and> r \<in> set (stage_B (stage_A rs)) \<and>
      (price r = PosInf \<or> price r = NegInf) \<longrightarrow>
      process_mapped_items (Some \<lparr>columns = cols, rows = rs\<rparr>) = Inl OverflowError) \<and>
   process_mapped_items (Some \<lparr>columns = required,
       rows = [\<lparr>name = Some ''Salt'', code = Some ''1'', sku = None, price = PosInf,
                priceType = ''fixed'', unit_count = None\<rparr>]\<rparr>) = Inl OverflowError \<and>
   process_mapped_items (Some \<lparr>columns = required,
       rows = [\<lparr>name = Some ''Case of salt'', code = Some ''1'', sku = None, price = PosInf,
                priceType = ''fixed'', unit_count = None\<rparr>,
               \<lparr>name = Some ''Salt'', code = None, sku = Some ''n/a'', price = NegInf,
                priceType = ''fixed'', unit_count = None\<rparr>,
               \<lparr>name = Some ''Tea'', code = None, sku = Some ''42'', price = Finite 2,
                priceType = ''fixed'', unit_count = None\<rparr>]\<rparr>)
     = Inr [\<lparr>cost_price_per_unit = Some (229 / 100), cost_unit = ''each'', lookup_code = ''42'',
             out_name = Some ''Tea'', out_size = 1, size_uom = ''each'', out_unit_count = None,
             alcoholic = False\<rparr>]"
proof (intro conjI allI impI)
  fix cols rs assume "\<not> set required \<subseteq> set cols"
  then show "filter (\<lambda>c. c \<notin> set cols) required \<noteq> []"
    by (auto simp: filter_empty_conv)
  then show "process_mapped_items (Some \<lparr>columns = cols, rows = rs\<rparr>) =
        Inl (KeyError (filter (\<lambda>c. c \<notin> set cols) required))"
    by (simp add: process_mapped_items_def)
next
  fix cols rs r
  assume h: "set required \<subseteq> set cols \<and> r \<in> set (stage_B (stage_A rs)) \<and>
      (price r = PosInf \<or> price r = NegInf)"
  then have "filter (\<lambda>c. c \<notin> set cols) required = []"
    by (auto simp: filter_empty_conv)
  moreover have "transform \<lparr>columns = cols, rows = rs\<rparr> = Inl OverflowError"
    using h transform_infinite_price [of r "\<lparr>columns = cols, rows = rs\<rparr>"] by simp
  ultimately show "process_mapped_items (Some \<lparr>columns = cols, rows = rs\<rparr>) = Inl OverflowError"
    by (simp add: process_mapped_items_def)
next
  show "process_mapped_items (Some \<lparr>columns = required,
       rows = [\<lparr>name = Some ''Salt'', code = Some ''1'', sku = None, price = PosInf,
                priceType = ''fixed'', unit_count = None\<rparr>]\<rparr>) = Inl OverflowError"
    by (simp add: process_mapped_items_def transform_def stage_A_def stage_B_def name_str_def
        bulk_name_def lower_def to_lower_def upper_chars_def lower_chars_def valid_row_def
        is_blank_def py_strip_def is_space_def markup_def retail_round_float_def)
next
  let ?case = "\<lparr>name = Some ''Case of salt'', code = Some ''1'', sku = None, price = PosInf,
                priceType = ''fixed'', unit_count = None\<rparr>"
  let ?salt = "\<lparr>name = Some ''Salt'', code = None, sku = Some ''n/a'', price = NegInf,
                priceType = ''fixed'', unit_count = None\<rparr>"
  let ?tea = "\<lparr>name = Some ''Tea'', code = None, sku = Some ''42'', price = Finite 2,
                priceType = ''fixed'', unit_count = None\<rparr>"
  have AB: "stage_B (stage_A [?case, ?salt, ?tea]) = [?tea]"
    by (simp add: stage_A_def stage_B_def name_str_def bulk_name_def lower_def to_lower_def
        upper_chars_def lower_chars_def valid_row_def is_blank_def py_strip_def is_space_def
        na_str_def normalize_numeric_token_def py_isdigit_def is_digit_def int_or_whole_float_def)
  have costs: "apply_series retail_round_float (map (\<lambda>r. markup (price r)) [?tea])
                 = Inr [Some (229 / 100)]"
    by (simp add: markup_def retail_round_float_def retail_round_def cents_def epsilon_def
        round2_def round_half_even_def Let_def floor_rat_numeral_divide)
  have ex: "extract_size_and_unit (Some ''Tea'') = (Some ''Tea'', 1, ''each'')"
    by (simp add: extract_size_and_unit_def py_strip_def py_split_def is_space_def lower_def
        to_lower_def upper_chars_def lower_chars_def size_of_token_def match_size_token_def
        is_digit_def)
  have lc: "get_lookup_code None (Some ''42'') = ''42''"
    by (simp add: get_lookup_code_def side_token_def side_int_def
        first_valid_numeric_from_list_def normalize_numeric_token_def py_strip_def is_space_def
        py_isdigit_def is_digit_def py_int_def max_str_digits_def)
  have mc: "map_cost_unit ''fixed'' = ''each''"
    by (simp add: map_cost_unit_def py_strip_def is_space_def lower_def to_lower_def
        upper_chars_def lower_chars_def)
  show "process_mapped_items (Some \<lparr>columns = required, rows = [?case, ?salt, ?tea]\<rparr>)
     = Inr [\<lparr>cost_price_per_unit = Some (229 / 100), cost_unit = ''each'', lookup_code = ''42'',
             out_name = Some ''Tea'', out_size = 1, size_uom = ''each'', out_unit_count = None,
             alcoholic = False\<rparr>]"
    unfolding process_mapped_items_def transform_def Let_def option.case table.select_convs
      AB costs
    by (simp add: required_def derive_def stage_D_def ex lc mc stage_F_def stage_G_def kept_def
        rank_first_def py_strip_def is_space_def)
qed

theorem process_mapped_items_infinite_price_witness:
  "process_mapped_items (Some \<lparr>columns = [''name'', ''code'', ''price'', ''priceType''],
       rows = [\<lparr>name = Some ''A'', code = Some ''1'', sku = None, price = Finite 1, priceType = [], unit_count = None\<rparr>]\<rparr>)
     = Inl (KeyError [''sku'']) \<and>
   process_mapped_items (Some \<lparr>columns = [''sku'', ''name'', ''code'', ''price'', ''priceType''],
       rows = [\<lparr>name = Some ''Tea'', code = None, sku = Some ''42'', price = Finite 2, priceType = ''fixed'', unit_count = None\<rparr>,
               \<lparr>name = Some ''Salt'', code = Some ''7'', sku = None, price = NegInf, priceType = ''fixed'', unit_count = None\<rparr>]\<rparr>)
     = Inl OverflowError"
proof -
  note T = process_mapped_items_infinite_price
  let ?tea = "\<lparr>name = Some ''Tea'', code = None, sku = Some ''42'', price = Finite 2, priceType = ''fixed'', unit_count = None\<rparr>"
  let ?salt = "\<lparr>name = Some ''Salt'', code = Some ''7'', sku = None, price = NegInf, priceType = ''fixed'', unit_count = None\<rparr>"
  have a: "\<not> set required \<subseteq> set [''name'', ''code'', ''price'', ''priceType'']"
    by (simp add: required_def)
  have b: "set required \<subseteq> set [''sku'', ''name'', ''code'', ''price'', ''priceType'']"
    by (simp add: required_def)
  have c: "?salt \<in> set (stage_B (stage_A [?tea, ?salt]))"
    by (simp add: stage_A_def stage_B_def name_str_def bulk_name_def lower_def to_lower_def
        upper_chars_def lower_chars_def valid_row_def is_blank_def py_strip_def is_space_def)
  have d: "price ?salt = PosInf \<or> price ?salt = NegInf" by simp
  show ?thesis
    using T [THEN conjunct1, rule_format, OF a]
      T [THEN conjunct2, THEN conjunct1, rule_format, OF conjI [OF b conjI [OF c d]]]
    by (simp add: required_def)
qed

text \<open>
  The irregular rows that the transform does absorb: a missing name, a code that is no
  number, a sku that is no number, a size token with an unknown unit, an unknown price type
  and missing prices give an output and no error.
\<close>

lemma irregular_rows_example:
  "process_mapped_items (Some \<lparr>columns = [''sku'', ''name'', ''code'', ''price'', ''priceType''],
       rows = [\<lparr>name = None, code = Some ''x;y'', sku = Some ''n/a'', price = NaN, priceType = ''nan'', unit_count = None\<rparr>,
               \<lparr>name = Some ''Tea 2zz'', code = None, sku = Some ''42'', price = NaN, priceType = ''?'', unit_count = None\<rparr>]\<rparr>)
     = Inr [\<lparr>cost_price_per_unit = None, cost_unit = [], lookup_code = ''42'', out_name = Some ''Tea 2zz'',
             out_size = 1, size_uom = ''each'', out_unit_count = None, alcoholic = False\<rparr>]"
  by (simp add: process_mapped_items_def required_def transform_def stage_A_def stage_B_def
      stage_F_def stage_G_def kept_def
      rank_first_def stage_D_def derive_def name_str_def bulk_name_def lower_def to_lower_def
      upper_chars_def lower_chars_def valid_row_def is_blank_def na_str_def
      normalize_numeric_token_def py_strip_def is_space_def py_isdigit_def
      is_digit_def is_alpha_def int_or_whole_float_def extract_size_and_unit_def get_lookup_code_def
      side_token_def side_int_def first_valid_numeric_from_list_def py_int_def max_str_digits_def
      py_split_def size_of_token_def match_size_token_def allowed_def retail_round_def
      map_cost_unit_def price_for_rank_def markup_def retail_round_float_def digits_val_def
      digit_val_def)

section \<open>The empty-code filter\<close>

lemma lookup_code_stage_D_derive:
  "lookup_code (stage_D (derive h r c)) = get_lookup_code (code r) (sku r)"
  by (simp add: stage_D_def derive_def split: prod.splits)

text \<open>
  C10. A row whose code is \<^verbatim>\<open>abc\<close> and whose sku is missing passes stages A and B, its
  resolved lookup code is empty, and stage F removes every row whose resolved lookup code is
  empty; so stage F removes rows that stage B admits.
\<close>

theorem stage_F_not_redundant:
  "stage_B (stage_A [\<lparr>name = Some ''Widget'', code = Some ''abc'', sku = None, price = Finite 1,
                       priceType = ''fixed'', unit_count = None\<rparr>])
     = [\<lparr>name = Some ''Widget'', code = Some ''abc'', sku = None, price = Finite 1,
          priceType = ''fixed'', unit_count = None\<rparr>] \<and>
   get_lookup_code (Some ''abc'') None = [] \<and>
   (\<forall>h r c os. get_lookup_code (code r) (sku r) = [] \<longrightarrow>
       stage_D (derive h r c) \<notin> set (stage_F os)) \<and>
   process_mapped_items (Some \<lparr>columns = required,
       rows = [\<lparr>name = Some ''Widget'', code = Some ''abc'', sku = None, price = Finite 1,
                priceType = ''fixed'', unit_count = None\<rparr>]\<rparr>) = Inr []"
proof (intro conjI allI impI)
  show "stage_B (stage_A [\<lparr>name = Some ''Widget'', code = Some ''abc'', sku = None, price = Finite 1,
                       priceType = ''fixed'', unit_count = None\<rparr>])
     = [\<lparr>name = Some ''Widget'', code = Some ''abc'', sku = None, price = Finite 1,
          priceType = ''fixed'', unit_count = None\<rparr>]"
    by (simp add: stage_A_def stage_B_def name_str_def bulk_name_def lower_def to_lower_def upper_chars_def lower_chars_def
        valid_row_def is_blank_def py_strip_def is_space_def)
  show g: "get_lookup_code (Some ''abc'') None = []"
    by (simp add: get_lookup_code_def side_token_def side_int_def
        first_valid_numeric_from_list_def normalize_numeric_token_def py_strip_def is_space_def
        py_isdigit_def is_digit_def int_or_whole_float_def)
  show "process_mapped_items (Some \<lparr>columns = required,
       rows = [\<lparr>name = Some ''Widget'', code = Some ''abc'', sku = None, price = Finite 1,
                priceType = ''fixed'', unit_count = None\<rparr>]\<rparr>) = Inr []"
    by (simp add: process_mapped_items_def transform_def stage_A_def stage_B_def stage_F_def
        stage_G_def kept_def lookup_code_stage_D_derive g name_str_def bulk_name_def lower_def
        to_lower_def upper_chars_def lower_chars_def valid_row_def is_blank_def py_strip_def is_space_def
        markup_def retail_round_float_def)
next
  fix h and r :: RawItemRecord and c os
  assume "get_lookup_code (code r) (sku r) = []"
  then show "stage_D (derive h r c) \<notin> set (stage_F os)"
    by (simp add: stage_F_def lookup_code_stage_D_derive py_strip_def)
qed

theorem stage_F_not_redundant_witness:
  "stage_D (derive False \<lparr>name = Some ''Widget'', code = Some ''abc'', sku = None, price = Finite 1,
                          priceType = ''fixed'', unit_count = None\<rparr> (Some (129 / 100)))
     \<notin> set (stage_F [stage_D (derive False \<lparr>name = Some ''Widget'', code = Some ''abc'', sku = None,
                          price = Finite 1, priceType = ''fixed'', unit_count = None\<rparr> (Some (129 / 100)))])"
  using stage_F_not_redundant [THEN conjunct2, THEN conjunct2, THEN conjunct1, rule_format,
      of "\<lparr>name = Some ''Widget'', code = Some ''abc'', sku = None, price = Finite 1,
                          priceType = ''fixed'', unit_count = None\<rparr>" False "Some (129 / 100)"]
    stage_F_not_redundant [THEN conjunct2, THEN conjunct1]
  by simp

section \<open>Deduplication\<close>

lemma rank_first_one_iff:
  "rank_first w i = 1 \<longleftrightarrow>
     (\<forall>j<length w. lookup_code (w ! j) = lookup_code (w ! i) \<longrightarrow>
          \<not> price_for_rank (w ! i) < price_for_rank (w ! j)) \<and>
     (\<forall>j<i. lookup_code (w ! j) = lookup_code (w ! i) \<longrightarrow>
          price_for_rank (w ! j) \<noteq> price_for_rank (w ! i))"
  by (auto simp: rank_first_def filter_empty_conv)

lemma mem_kept_iff:
  "i \<in> set (kept w) \<longleftrightarrow>
     i < length w \<and>
     (\<forall>j<length w. lookup_code (w ! j) = lookup_code (w ! i) \<longrightarrow>
          price_for_rank (w ! j) \<le> price_for_rank (w ! i) \<and>
          (price_for_rank (w ! j) = price_for_rank (w ! i) \<longrightarrow> i \<le> j))"
  (is "?L \<longleftrightarrow> ?n \<and> ?top")
proof
  assume ?L
  then have n: "i < length w" and r: "rank_first w i = 1"
    by (simp_all add: kept_def)
  have "?top"
  proof (intro allI impI conjI)
    fix j assume j: "j < length w" and c: "lookup_code (w ! j) = lookup_code (w ! i)"
    from r j c show "price_for_rank (w ! j) \<le> price_for_rank (w ! i)"
      unfolding rank_first_one_iff by (simp add: not_less)
    assume e: "price_for_rank (w ! j) = price_for_rank (w ! i)"
    show "i \<le> j"
    proof (rule ccontr)
      assume "\<not> i \<le> j"
      then have "j < i" by simp
      with r c e show False unfolding rank_first_one_iff by blast
    qed
  qed
  with n show "?n \<and> ?top" by simp
next
  assume h: "?n \<and> ?top"
  then have "rank_first w i = 1"
    unfolding rank_first_one_iff
    by (metis leD less_trans)
  with h show ?L by (simp add: kept_def)
qed

lemma kept_unique:
  assumes "i \<in> set (kept w)" and "k \<in> set (kept w)"
    and "lookup_code (w ! i) = lookup_code (w ! k)"
  shows "i = k"
proof -
  from assms have "price_for_rank (w ! k) \<le> price_for_rank (w ! i)"
    and "price_for_rank (w ! i) \<le> price_for_rank (w ! k)"
    unfolding mem_kept_iff by simp_all
  then have "price_for_rank (w ! k) = price_for_rank (w ! i)" by simp
  with assms have "i \<le> k" and "k \<le> i"
    unfolding mem_kept_iff by simp_all
  then show ?thesis by simp
qed

lemma kept_exists:
  assumes "i < length w"
  shows "\<exists>k. k \<in> set (kept w) \<and> lookup_code (w ! k) = lookup_code (w ! i)"
proof -
  define S where "S = {j. j < length w \<and> lookup_code (w ! j) = lookup_code (w ! i)}"
  define m where "m = Max ((\<lambda>j. price_for_rank (w ! j)) ` S)"
  define T where "T = {j \<in> S. price_for_rank (w ! j) = m}"
  define k where "k = Min T"
  have fS: "finite S" and neS: "S \<noteq> {}"
    using assms by (auto simp: S_def)
  then have "m \<in> (\<lambda>j. price_for_rank (w ! j)) ` S"
    unfolding m_def by (intro Max_in) auto
  then have neT: "T \<noteq> {}" by (auto simp: T_def)
  have fT: "finite T" using fS by (simp add: T_def)
  have kT: "k \<in> T" unfolding k_def using fT neT by (rule Min_in)
  then have kS: "k \<in> S" and km: "price_for_rank (w ! k) = m" by (simp_all add: T_def)
  have "k \<in> set (kept w)"
    unfolding mem_kept_iff
  proof (intro conjI allI impI)
    show "k < length w" using kS by (simp add: S_def)
    fix j assume j: "j < length w" and c: "lookup_code (w ! j) = lookup_code (w ! k)"
    then have jS: "j \<in> S" using kS by (simp add: S_def)
    then show "price_for_rank (w ! j) \<le> price_for_rank (w ! k)"
      unfolding km m_def using fS by (intro Max_ge) auto
    assume "price_for_rank (w ! j) = price_for_rank (w ! k)"
    then have "j \<in> T" using jS km by (simp add: T_def)
    then show "k \<le> j" unfolding k_def using fT by (intro Min_le)
  qed
  moreover have "lookup_code (w ! k) = lookup_code (w ! i)"
    using kS by (simp add: S_def)
  ultimately show ?thesis by blast
qed

lemma sorted_kept: "sorted_wrt (<) (kept w)"
  unfolding kept_def by (rule sorted_wrt_filter) simp

lemma distinct_lookup_code_stage_G: "distinct (map lookup_code (stage_G w))"
proof -
  have "distinct (kept w)" by (simp add: kept_def)
  moreover have "inj_on (\<lambda>i. lookup_code (w ! i)) (set (kept w))"
    by (rule inj_onI) (rule kept_unique)
  ultimately show ?thesis
    by (simp add: stage_G_def distinct_map comp_def)
qed

lemma set_stage_G: "set (stage_G w) \<subseteq> set w"
  by (auto simp: stage_G_def kept_def)

text \<open>
  C3. Stage G keeps the rows at the positions \<^term>\<open>kept work\<close>, listed in increasing
  position, that is in input order. A position is kept exactly when no row of its group
  (the rows with the same lookup code) has a greater price and no earlier row of the group
  has an equal price; every group has exactly one kept position; a missing price ranks
  below every number.
\<close>

theorem stage_G_keeps_top_of_group:
  "stage_G work = map (\<lambda>i. work ! i) (kept work) \<and>
   sorted_wrt (<) (kept work) \<and>
   (\<forall>i. i \<in> set (kept work) \<longleftrightarrow>
        i < length work \<and>
        (\<forall>j<length work. lookup_code (work ! j) = lookup_code (work ! i) \<longrightarrow>
             price_for_rank (work ! j) \<le> price_for_rank (work ! i) \<and>
             (price_for_rank (work ! j) = price_for_rank (work ! i) \<longrightarrow> i \<le> j))) \<and>
   (\<forall>i<length work. \<exists>!k. k \<in> set (kept work) \<and>
        lookup_code (work ! k) = lookup_code (work ! i)) \<and>
   (\<forall>a b. cost_price_per_unit a = None \<longrightarrow> price_for_rank a \<le> price_for_rank b) \<and>
   (\<forall>a b x y. cost_price_per_unit a = Some x \<and> cost_price_per_unit b = Some y \<longrightarrow>
        (price_for_rank a \<le> price_for_rank b \<longleftrightarrow> x \<le> y))"
proof (intro conjI)
  show "stage_G work = map (\<lambda>i. work ! i) (kept work)" by (simp add: stage_G_def)
  show "sorted_wrt (<) (kept work)" by (rule sorted_kept)
  show "\<forall>i. i \<in> set (kept work) \<longleftrightarrow>
        i < length work \<and>
        (\<forall>j<length work. lookup_code (work ! j) = lookup_code (work ! i) \<longrightarrow>
             price_for_rank (work ! j) \<le> price_for_rank (work ! i) \<and>
             (price_for_rank (work ! j) = price_for_rank (work ! i) \<longrightarrow> i \<le> j))"
    using mem_kept_iff by blast
  show "\<forall>i<length work. \<exists>!k. k \<in> set (kept work) \<and>
        lookup_code (work ! k) = lookup_code (work ! i)"
  proof (intro allI impI)
    fix i assume "i < length work"
    from kept_exists [OF this] obtain k where
      k: "k \<in> set (kept work) \<and> lookup_code (work ! k) = lookup_code (work ! i)" by blast
    show "\<exists>!k. k \<in> set (kept work) \<and> lookup_code (work ! k) = lookup_code (work ! i)"
    proof (rule ex1I [of _ k])
      show "k \<in> set (kept work) \<and> lookup_code (work ! k) = lookup_code (work ! i)" by (rule k)
      fix k' assume "k' \<in> set (kept work) \<and> lookup_code (work ! k') = lookup_code (work ! i)"
      with k show "k' = k" using kept_unique [of k' work k] by simp
    qed
  qed
  show "\<forall>a b. cost_price_per_unit a = None \<longrightarrow> price_for_rank a \<le> price_for_rank b"
    by (simp add: price_for_rank_def)
  show "\<forall>a b x y. cost_price_per_unit a = Some x \<and> cost_price_per_unit b = Some y \<longrightarrow>
        (price_for_rank a \<le> price_for_rank b \<longleftrightarrow> x \<le> y)"
    by (simp add: price_for_rank_def)
qed

lemma py_strip_Nil: "py_strip [] = []"
  by (simp add: py_strip_def)

text \<open>
  C1. In every output of the transform each lookup code is a non-empty string and no two
  rows have the same lookup code.
\<close>

theorem output_lookup_codes_nonempty_unique:
  "process_mapped_items input = Inr out \<Longrightarrow>
     (\<forall>o1\<in>set out. lookup_code o1 \<noteq> []) \<and> distinct (map lookup_code out)"
proof -
  assume h: "process_mapped_items input = Inr out"
  then obtain df where out: "transform df = Inr out"
    by (auto simp: process_mapped_items_def Let_def split: option.splits if_splits)
  then obtain xs where o: "out = stage_G (stage_F xs)"
    by (auto simp: transform_def Let_def split: sum.splits)
  have "\<forall>o1\<in>set (stage_F xs). lookup_code o1 \<noteq> []"
    by (auto simp: stage_F_def py_strip_Nil)
  then have "\<forall>o1\<in>set out. lookup_code o1 \<noteq> []"
    unfolding o using set_stage_G by blast
  moreover have "distinct (map lookup_code out)"
    unfolding o by (rule distinct_lookup_code_stage_G)
  ultimately show ?thesis by simp
qed

text \<open>
  Prices 2.91 and 4.60 become 3.29 and 5.29 after the markup of 13 percent and rounding:
  the two prices of the specification's deduplication example.
\<close>

lemma retail_round_examples:
  "retail_round (Some (291 / 100 * (113 / 100))) = Some (329 / 100)"
  "retail_round (Some (46 / 10 * (113 / 100))) = Some (529 / 100)"
  by (simp_all add: retail_round_def cents_def epsilon_def round2_def round_half_even_def Let_def
      floor_rat_numeral_divide)

theorem stage_G_keeps_top_of_group_witness:
  "stage_G
    [\<lparr>cost_price_per_unit = Some (329 / 100), cost_unit = [], lookup_code = ''500'', out_name = None, out_size = 1, size_uom = ''each'', out_unit_count = None, alcoholic = False\<rparr>,
     \<lparr>cost_price_per_unit = None, cost_unit = [], lookup_code = ''77'', out_name = None, out_size = 1, size_uom = ''each'', out_unit_count = None, alcoholic = False\<rparr>,
     \<lparr>cost_price_per_unit = Some (529 / 100), cost_unit = [], lookup_code = ''500'', out_name = None, out_size = 1, size_uom = ''each'', out_unit_count = None, alcoholic = False\<rparr>,
     \<lparr>cost_price_per_unit = Some (529 / 100), cost_unit = [], lookup_code = ''500'', out_name = None, out_size = 1, size_uom = ''each'', out_unit_count = None, alcoholic = False\<rparr>]
   = [\<lparr>cost_price_per_unit = None, cost_unit = [], lookup_code = ''77'', out_name = None, out_size = 1, size_uom = ''each'', out_unit_count = None, alcoholic = False\<rparr>,
      \<lparr>cost_price_per_unit = Some (529 / 100), cost_unit = [], lookup_code = ''500'', out_name = None, out_size = 1, size_uom = ''each'', out_unit_count = None, alcoholic = False\<rparr>] \<and>
   (\<exists>!k. k \<in> set (kept
    [\<lparr>cost_price_per_unit = Some (329 / 100), cost_unit = [], lookup_code = ''500'', out_name = None, out_size = 1, size_uom = ''each'', out_unit_count = None, alcoholic = False\<rparr>,
     \<lparr>cost_price_per_unit = None, cost_unit = [], lookup_code = ''77'', out_name = None, out_size = 1, size_uom = ''each'', out_unit_count = None, alcoholic = False\<rparr>,
     \<lparr>cost_price_per_unit = Some (529 / 100), cost_unit = [], lookup_code = ''500'', out_name = None, out_size = 1, size_uom = ''each'', out_unit_count = None, alcoholic = False\<rparr>,
     \<lparr>cost_price_per_unit = Some (529 / 100), cost_unit = [], lookup_code = ''500'', out_name = None, out_size = 1, size_uom = ''each'', out_unit_count = None, alcoholic = False\<rparr>]) \<and>
      lookup_code ([\<lparr>cost_price_per_unit = Some (329 / 100), cost_unit = [], lookup_code = ''500'', out_name = None, out_size = 1, size_uom = ''each'', out_unit_count = None, alcoholic = False\<rparr>,
     \<lparr>cost_price_per_unit = None, cost_unit = [], lookup_code = ''77'', out_name = None, out_size = 1, size_uom = ''each'', out_unit_count = None, alcoholic = False\<rparr>,
     \<lparr>cost_price_per_unit = Some (529 / 100), cost_unit = [], lookup_code = ''500'', out_name = None, out_size = 1, size_uom = ''each'', out_unit_count = None, alcoholic = False\<rparr>,
     \<lparr>cost_price_per_unit = Some (529 / 100), cost_unit = [], lookup_code = ''500'', out_name = None, out_size = 1, size_uom = ''each'', out_unit_count = None, alcoholic = False\<rparr>] ! k) = ''500'')"
proof -
  let ?w = "[\<lparr>cost_price_per_unit = Some (329 / 100), cost_unit = [], lookup_code = ''500'', out_name = None, out_size = 1, size_uom = ''each'', out_unit_count = None, alcoholic = False\<rparr>,
     \<lparr>cost_price_per_unit = None, cost_unit = [], lookup_code = ''77'', out_name = None, out_size = 1, size_uom = ''each'', out_unit_count = None, alcoholic = False\<rparr>,
     \<lparr>cost_price_per_unit = Some (529 / 100), cost_unit = [], lookup_code = ''500'', out_name = None, out_size = 1, size_uom = ''each'', out_unit_count = None, alcoholic = False\<rparr>,
     \<lparr>cost_price_per_unit = Some (529 / 100), cost_unit = [], lookup_code = ''500'', out_name = None, out_size = 1, size_uom = ''each'', out_unit_count = None, alcoholic = False\<rparr>]"
  note T = stage_G_keeps_top_of_group [of ?w]
  have K: "kept ?w = [1, 2]"
    by (simp add: kept_def rank_first_def price_for_rank_def numeral_eq_Suc)
  have "stage_G ?w = map (\<lambda>i. ?w ! i) (kept ?w)"
    using T by (rule conjunct1)
  then have a: "stage_G ?w = [\<lparr>cost_price_per_unit = None, cost_unit = [], lookup_code = ''77'', out_name = None, out_size = 1, size_uom = ''each'', out_unit_count = None, alcoholic = False\<rparr>, \<lparr>cost_price_per_unit = Some (529 / 100), cost_unit = [], lookup_code = ''500'', out_name = None, out_size = 1, size_uom = ''each'', out_unit_count = None, alcoholic = False\<rparr>]" unfolding K by simp
  have "0 < length ?w" by simp
  with T have "\<exists>!k. k \<in> set (kept ?w) \<and> lookup_code (?w ! k) = lookup_code (?w ! 0)"
    by blast
  then have b: "\<exists>!k. k \<in> set (kept ?w) \<and> lookup_code (?w ! k) = ''500''" by simp
  from a b show ?thesis by (rule conjI)
qed

text \<open>
  A run of the transform on four rows, stage by stage: the bulk row is dropped by stage A,
  the two rows with lookup code 500 are deduplicated by stage G.
\<close>

lemma example_extract_1: "extract_size_and_unit (Some ''Rice 2kg'') = (Some ''Rice'', 2, ''kg'')"
  by (simp add: extract_size_and_unit_def py_strip_def py_split_def is_space_def lower_def
        to_lower_def upper_chars_def lower_chars_def size_of_token_def match_size_token_def is_digit_def is_alpha_def allowed_def py_float_def digits_val_def digit_val_def Let_def)

lemma example_extract_2: "extract_size_and_unit (Some ''Rice 2kg each'') = (Some ''Rice'', 2, ''kg'')"
  by (simp add: extract_size_and_unit_def py_strip_def py_split_def is_space_def lower_def
        to_lower_def upper_chars_def lower_chars_def size_of_token_def match_size_token_def is_digit_def is_alpha_def allowed_def py_float_def digits_val_def digit_val_def Let_def)

lemma example_extract_3: "extract_size_and_unit (Some ''Soda 6pk'') = (Some ''Soda'', 6, ''pk'')"
  by (simp add: extract_size_and_unit_def py_strip_def py_split_def is_space_def lower_def
        to_lower_def upper_chars_def lower_chars_def size_of_token_def match_size_token_def is_digit_def is_alpha_def allowed_def py_float_def digits_val_def digit_val_def Let_def)

lemma example_lookup_codes: "get_lookup_code (Some ''500'') None = ''500''"
  "get_lookup_code None (Some ''500.0'') = ''500''"
  "get_lookup_code (Some ''12;13'') (Some ''7'') = ''12''"
  by (simp_all add: get_lookup_code_def side_token_def side_int_def first_valid_numeric_from_list_def
     normalize_numeric_token_def py_strip_def is_space_def py_isdigit_def is_digit_def int_or_whole_float_def
     py_int_def max_str_digits_def digits_val_def digit_val_def Let_def)

lemma example_stage_B: "stage_B (stage_A [\<lparr>name = Some ''Rice 2kg'', code = Some ''500'', sku = None, price = Finite (291 / 100), priceType = ''fixed'', unit_count = None\<rparr>,
             \<lparr>name = Some ''Rice 2kg each'', code = None, sku = Some ''500.0'', price = Finite (46 / 10), priceType = ''Fixed'', unit_count = None\<rparr>,
             \<lparr>name = Some ''Soda 6pk'', code = Some ''12;13'', sku = Some ''7'', price = NaN, priceType = ''per unit'', unit_count = None\<rparr>,
             \<lparr>name = Some ''Case of water'', code = Some ''9'', sku = None, price = Finite 1, priceType = ''fixed'', unit_count = None\<rparr>])
   = [\<lparr>name = Some ''Rice 2kg'', code = Some ''500'', sku = None, price = Finite (291 / 100), priceType = ''fixed'', unit_count = None\<rparr>,
             \<lparr>name = Some ''Rice 2kg each'', code = None, sku = Some ''500.0'', price = Finite (46 / 10), priceType = ''Fixed'', unit_count = None\<rparr>,
             \<lparr>name = Some ''Soda 6pk'', code = Some ''12;13'', sku = Some ''7'', price = NaN, priceType = ''per unit'', unit_count = None\<rparr>]"
  by (simp add: stage_A_def stage_B_def name_str_def bulk_name_def lower_def to_lower_def
        upper_chars_def lower_chars_def valid_row_def is_blank_def py_strip_def is_space_def
        na_str_def normalize_numeric_token_def py_isdigit_def is_digit_def int_or_whole_float_def)

lemma example_cost_units: "map_cost_unit ''fixed'' = ''each''" "map_cost_unit ''Fixed'' = ''each''" "map_cost_unit ''per unit'' = ''lb''"
  by (simp_all add: map_cost_unit_def py_strip_def is_space_def lower_def to_lower_def upper_chars_def lower_chars_def)


lemma example_costs: "apply_series retail_round_float (map (\<lambda>r. markup (price r))
     [\<lparr>name = Some ''Rice 2kg'', code = Some ''500'', sku = None, price = Finite (291 / 100), priceType = ''fixed'', unit_count = None\<rparr>,
             \<lparr>name = Some ''Rice 2kg each'', code = None, sku = Some ''500.0'', price = Finite (46 / 10), priceType = ''Fixed'', unit_count = None\<rparr>,
             \<lparr>name = Some ''Soda 6pk'', code = Some ''12;13'', sku = Some ''7'', price = NaN, priceType = ''per unit'', unit_count = None\<rparr>])
   = Inr [Some (329 / 100), Some (529 / 100), None]"
  by (simp add: markup_def retail_round_float_def retail_round_def cents_def epsilon_def round2_def
      round_half_even_def Let_def floor_rat_numeral_divide)

lemma example_stage_G: "stage_G (stage_F [\<lparr>cost_price_per_unit = Some (329 / 100), cost_unit = ''each'',
         lookup_code = ''500'', out_name = Some ''Rice'', out_size = 2,
         size_uom = ''kg'', out_unit_count = None, alcoholic = False\<rparr>, \<lparr>cost_price_per_unit = Some (529 / 100), cost_unit = ''each'',
         lookup_code = ''500'', out_name = Some ''Rice'', out_size = 2,
         size_uom = ''kg'', out_unit_count = None, alcoholic = False\<rparr>,
      \<lparr>cost_price_per_unit = None, cost_unit = ''lb'', lookup_code = ''12'',
         out_name = Some ''Soda'', out_size = 1, size_uom = ''pk'',
         out_unit_count = Some 6, alcoholic = False\<rparr>]) = [\<lparr>cost_price_per_unit = Some (529 / 100), cost_unit = ''each'',
         lookup_code = ''500'', out_name = Some ''Rice'', out_size = 2,
         size_uom = ''kg'', out_unit_count = None, alcoholic = False\<rparr>,
      \<lparr>cost_price_per_unit = None, cost_unit = ''lb'', lookup_code = ''12'',
         out_name = Some ''Soda'', out_size = 1, size_uom = ''pk'',
         out_unit_count = Some 6, alcoholic = False\<rparr>]"
  by (simp add: stage_F_def stage_G_def kept_def rank_first_def price_for_rank_def py_strip_def
      is_space_def numeral_eq_Suc)


theorem output_lookup_codes_nonempty_unique_witness:
  "process_mapped_items (Some \<lparr>columns = [''name'', ''code'', ''sku'', ''price'', ''priceType''],
     rows = [\<lparr>name = Some ''Rice 2kg'', code = Some ''500'', sku = None, price = Finite (291 / 100), priceType = ''fixed'', unit_count = None\<rparr>,
             \<lparr>name = Some ''Rice 2kg each'', code = None, sku = Some ''500.0'', price = Finite (46 / 10), priceType = ''Fixed'', unit_count = None\<rparr>,
             \<lparr>name = Some ''Soda 6pk'', code = Some ''12;13'', sku = Some ''7'', price = NaN, priceType = ''per unit'', unit_count = None\<rparr>,
             \<lparr>name = Some ''Case of water'', code = Some ''9'', sku = None, price = Finite 1, priceType = ''fixed'', unit_count = None\<rparr>]\<rparr>)
    = Inr [\<lparr>cost_price_per_unit = Some (529 / 100), cost_unit = ''each'',
         lookup_code = ''500'', out_name = Some ''Rice'', out_size = 2,
         size_uom = ''kg'', out_unit_count = None, alcoholic = False\<rparr>,
      \<lparr>cost_price_per_unit = None, cost_unit = ''lb'', lookup_code = ''12'',
         out_name = Some ''Soda'', out_size = 1, size_uom = ''pk'',
         out_unit_count = Some 6, alcoholic = False\<rparr>] \<and>
   list_all (\<lambda>o1. lookup_code o1 \<noteq> []) [\<lparr>cost_price_per_unit = Some (529 / 100), cost_unit = ''each'',
         lookup_code = ''500'', out_name = Some ''Rice'', out_size = 2,
         size_uom = ''kg'', out_unit_count = None, alcoholic = False\<rparr>,
      \<lparr>cost_price_per_unit = None, cost_unit = ''lb'', lookup_code = ''12'',
         out_name = Some ''Soda'', out_size = 1, size_uom = ''pk'',
         out_unit_count = Some 6, alcoholic = False\<rparr>] \<and>
   distinct (map lookup_code [\<lparr>cost_price_per_unit = Some (529 / 100), cost_unit = ''each'',
         lookup_code = ''500'', out_name = Some ''Rice'', out_size = 2,
         size_uom = ''kg'', out_unit_count = None, alcoholic = False\<rparr>,
      \<lparr>cost_price_per_unit = None, cost_unit = ''lb'', lookup_code = ''12'',
         out_name = Some ''Soda'', out_size = 1, size_uom = ''pk'',
         out_unit_count = Some 6, alcoholic = False\<rparr>])"
proof -
  have run: "process_mapped_items (Some \<lparr>columns = [''name'', ''code'', ''sku'', ''price'', ''priceType''],
     rows = [\<lparr>name = Some ''Rice 2kg'', code = Some ''500'', sku = None, price = Finite (291 / 100), priceType = ''fixed'', unit_count = None\<rparr>,
             \<lparr>name = Some ''Rice 2kg each'', code = None, sku = Some ''500.0'', price = Finite (46 / 10), priceType = ''Fixed'', unit_count = None\<rparr>,
             \<lparr>name = Some ''Soda 6pk'', code = Some ''12;13'', sku = Some ''7'', price = NaN, priceType = ''per unit'', unit_count = None\<rparr>,
             \<lparr>name = Some ''Case of water'', code = Some ''9'', sku = None, price = Finite 1, priceType = ''fixed'', unit_count = None\<rparr>]\<rparr>)
    = Inr [\<lparr>cost_price_per_unit = Some (529 / 100), cost_unit = ''each'',
         lookup_code = ''500'', out_name = Some ''Rice'', out_size = 2,
         size_uom = ''kg'', out_unit_count = None, alcoholic = False\<rparr>,
      \<lparr>cost_price_per_unit = None, cost_unit = ''lb'', lookup_code = ''12'',
         out_name = Some ''Soda'', out_size = 1, size_uom = ''pk'',
         out_unit_count = Some 6, alcoholic = False\<rparr>]"
    unfolding process_mapped_items_def transform_def Let_def option.case table.select_convs
      example_stage_B example_costs
    by (simp add: required_def derive_def stage_D_def example_extract_1 example_extract_2
        example_extract_3 example_lookup_codes example_cost_units round_half_even_def
        example_stage_G)
  from output_lookup_codes_nonempty_unique [OF run] run show ?thesis
    unfolding list_all_iff by blast
qed

section \<open>Retail rounding: endings and tolerance\<close>

lemma round_half_even_of_int: "round_half_even (of_int m) = m"
  by (simp add: round_half_even_def)

lemma round2_hundredths: "round2 (of_int m / 100) = of_int m / 100"
  by (simp add: round2_def round_half_even_of_int)

lemma round2_ending:
  "round2 (of_int n + numeral k / 100) = of_int n + numeral k / 100"
proof -
  have "of_int n + numeral k / 100 = (of_int (100 * n + numeral k) :: rat) / 100"
    by simp
  then show ?thesis by (simp only: round2_hundredths)
qed

lemma round2_ending':
  "round2 (numeral k / 100 + of_int n) = numeral k / 100 + of_int n"
  using round2_ending [of n k] by (simp add: add.commute)

lemma floor_ending:
  assumes "0 \<le> c" and "c < 1"
  shows "\<lfloor>of_int n + c :: rat\<rfloor> = n"
  using assms by (intro floor_unique) simp_all

lemma retail_round_cases:
  fixes x :: rat
  defines "b \<equiv> of_int \<lfloor>x\<rfloor>" and "f \<equiv> x - of_int \<lfloor>x\<rfloor>"
  shows "retail_round (Some x) =
     Some (if f \<le> 29 / 100 + epsilon then b + 29 / 100
           else if f \<le> 49 / 100 + epsilon then b + 49 / 100
           else if f \<le> 79 / 100 + epsilon then b + 79 / 100
           else if f \<le> 99 / 100 + epsilon then b + 99 / 100
           else b + 1 + 29 / 100)"
proof -
  show ?thesis
    unfolding retail_round_def cents_def b_def f_def
    by (simp add: Let_def round2_ending round2_ending')
qed

text \<open>
  C2, amended. For a numeric \<open>x\<close> with \<open>base = floor x\<close> the result is \<open>base + c\<close> for the
  first ending \<open>c\<close> of 0.29, 0.49, 0.79, 0.99 with \<open>x - base \<le> c + epsilon\<close>, and
  \<open>base + 1 + 0.29\<close> when there is none; its fractional part is one of the four endings;
  and it is at least \<open>x - epsilon\<close>. It can lie below \<open>x\<close>, by at most \<open>epsilon\<close>.
\<close>

theorem retail_round_first_ending:
  "retail_round None = None \<and>
   (\<forall>x. \<exists>r. retail_round (Some x) = Some r \<and>
      (x - of_int \<lfloor>x\<rfloor> \<le> 29 / 100 + epsilon \<longrightarrow> r = of_int \<lfloor>x\<rfloor> + 29 / 100) \<and>
      (29 / 100 + epsilon < x - of_int \<lfloor>x\<rfloor> \<and> x - of_int \<lfloor>x\<rfloor> \<le> 49 / 100 + epsilon \<longrightarrow>
          r = of_int \<lfloor>x\<rfloor> + 49 / 100) \<and>
      (49 / 100 + epsilon < x - of_int \<lfloor>x\<rfloor> \<and> x - of_int \<lfloor>x\<rfloor> \<le> 79 / 100 + epsilon \<longrightarrow>
          r = of_int \<lfloor>x\<rfloor> + 79 / 100) \<and>
      (79 / 100 + epsilon < x - of_int \<lfloor>x\<rfloor> \<and> x - of_int \<lfloor>x\<rfloor> \<le> 99 / 100 + epsilon \<longrightarrow>
          r = of_int \<lfloor>x\<rfloor> + 99 / 100) \<and>
      (99 / 100 + epsilon < x - of_int \<lfloor>x\<rfloor> \<longrightarrow> r = of_int \<lfloor>x\<rfloor> + 1 + 29 / 100) \<and>
      x - epsilon \<le> r \<and>
      r - of_int \<lfloor>r\<rfloor> \<in> set cents)"
proof (intro conjI allI)
  show "retail_round None = None" by (simp add: retail_round_def)
next
  fix x :: rat
  define b :: rat where "b = of_int \<lfloor>x\<rfloor>"
  define f where "f = x - of_int \<lfloor>x\<rfloor>"
  define r where "r = (if f \<le> 29 / 100 + epsilon then b + 29 / 100
           else if f \<le> 49 / 100 + epsilon then b + 49 / 100
           else if f \<le> 79 / 100 + epsilon then b + 79 / 100
           else if f \<le> 99 / 100 + epsilon then b + 99 / 100
           else b + 1 + 29 / 100)"
  have rr: "retail_round (Some x) = Some r"
    unfolding r_def b_def f_def by (rule retail_round_cases)
  have f0: "0 \<le> f" and f1: "f < 1" unfolding f_def by linarith+
  have x: "x = b + f" by (simp add: b_def f_def)
  have e: "0 < epsilon" by (simp add: epsilon_def)
  have low: "x - epsilon \<le> r"
    unfolding r_def x using f1 e by (auto split: if_splits)
  have fl: "\<lfloor>b + 29 / 100\<rfloor> = \<lfloor>x\<rfloor>" "\<lfloor>b + 49 / 100\<rfloor> = \<lfloor>x\<rfloor>" "\<lfloor>b + 79 / 100\<rfloor> = \<lfloor>x\<rfloor>"
    "\<lfloor>b + 99 / 100\<rfloor> = \<lfloor>x\<rfloor>" "\<lfloor>b + 1 + 29 / 100\<rfloor> = \<lfloor>x\<rfloor> + 1"
    unfolding b_def
    using floor_ending [of "29 / 100" "\<lfloor>x\<rfloor>"] floor_ending [of "49 / 100" "\<lfloor>x\<rfloor>"]
      floor_ending [of "79 / 100" "\<lfloor>x\<rfloor>"] floor_ending [of "99 / 100" "\<lfloor>x\<rfloor>"]
      floor_ending [of "29 / 100" "\<lfloor>x\<rfloor> + 1"]
    by (simp_all add: add.assoc)
  have en: "r - of_int \<lfloor>r\<rfloor> \<in> set cents"
    unfolding r_def cents_def by (simp add: fl) (simp add: b_def floor_rat_numeral_divide)
  show "\<exists>r. retail_round (Some x) = Some r \<and>
      (x - of_int \<lfloor>x\<rfloor> \<le> 29 / 100 + epsilon \<longrightarrow> r = of_int \<lfloor>x\<rfloor> + 29 / 100) \<and>
      (29 / 100 + epsilon < x - of_int \<lfloor>x\<rfloor> \<and> x - of_int \<lfloor>x\<rfloor> \<le> 49 / 100 + epsilon \<longrightarrow>
          r = of_int \<lfloor>x\<rfloor> + 49 / 100) \<and>
      (49 / 100 + epsilon < x - of_int \<lfloor>x\<rfloor> \<and> x - of_int \<lfloor>x\<rfloor> \<le> 79 / 100 + epsilon \<longrightarrow>
          r = of_int \<lfloor>x\<rfloor> + 79 / 100) \<and>
      (79 / 100 + epsilon < x - of_int \<lfloor>x\<rfloor> \<and> x - of_int \<lfloor>x\<rfloor> \<le> 99 / 100 + epsilon \<longrightarrow>
          r = of_int \<lfloor>x\<rfloor> + 99 / 100) \<and>
      (99 / 100 + epsilon < x - of_int \<lfloor>x\<rfloor> \<longrightarrow> r = of_int \<lfloor>x\<rfloor> + 1 + 29 / 100) \<and>
      x - epsilon \<le> r \<and>
      r - of_int \<lfloor>r\<rfloor> \<in> set cents"
  proof (intro exI [of _ r] conjI impI)
    show "retail_round (Some x) = Some r" by (rule rr)
    show "x - epsilon \<le> r" by (rule low)
    show "r - of_int \<lfloor>r\<rfloor> \<in> set cents" by (rule en)
  qed (use e in \<open>auto simp: r_def b_def f_def\<close>)
qed


theorem retail_round_first_ending_witness:
  "retail_round (Some (1030 / 100)) = Some (1049 / 100) \<and>
   (1030 / 100 :: rat) - epsilon \<le> 1049 / 100 \<and>
   (1049 / 100 :: rat) - of_int \<lfloor>1049 / 100 :: rat\<rfloor> \<in> set cents"
proof -
  from retail_round_first_ending [THEN conjunct2, rule_format, of "1030 / 100"]
  obtain r where r: "retail_round (Some (1030 / 100)) = Some r"
    and c: "29 / 100 + epsilon < (1030 / 100 :: rat) - of_int \<lfloor>1030 / 100 :: rat\<rfloor> \<and>
            (1030 / 100 :: rat) - of_int \<lfloor>1030 / 100 :: rat\<rfloor> \<le> 49 / 100 + epsilon \<longrightarrow>
            r = of_int \<lfloor>1030 / 100 :: rat\<rfloor> + 49 / 100"
    and l: "1030 / 100 - epsilon \<le> r"
    and e: "r - of_int \<lfloor>r\<rfloor> \<in> set cents"
    by blast
  have "29 / 100 + epsilon < (1030 / 100 :: rat) - of_int \<lfloor>1030 / 100 :: rat\<rfloor> \<and>
        (1030 / 100 :: rat) - of_int \<lfloor>1030 / 100 :: rat\<rfloor> \<le> 49 / 100 + epsilon"
    by (simp add: epsilon_def floor_rat_numeral_divide)
  with c have "r = of_int \<lfloor>1030 / 100 :: rat\<rfloor> + 49 / 100" by blast
  then have "r = 1049 / 100" by (simp add: floor_rat_numeral_divide)
  with r l e show ?thesis by simp
qed

text \<open>
  C2 as stated claims that the result is never below the input. The tolerance
  \<open>epsilon\<close> contradicts it: 10.2900000005 is rounded to 10.29.
\<close>

theorem retail_round_below_input:
  "retail_round (Some (102900000005 / 10000000000)) = Some (1029 / 100) \<and>
   \<not> (102900000005 / 10000000000 :: rat) \<le> 1029 / 100"
  by (simp add: retail_round_def cents_def epsilon_def round2_def round_half_even_def Let_def
      floor_rat_numeral_divide)

text \<open>
  The examples of the specification: three hold; 10.95 is rounded to 10.99, since
  0.95 does not exceed 0.99, where the specification expects 11.29.
\<close>

lemma retail_round_spec_examples:
  "retail_round (Some 10) = Some (1029 / 100)"
  "retail_round (Some (1030 / 100)) = Some (1049 / 100)"
  "retail_round (Some (1099 / 100)) = Some (1099 / 100)"
  "retail_round (Some (1095 / 100)) = Some (1099 / 100)"
  by (simp_all add: retail_round_def cents_def epsilon_def round2_def round_half_even_def Let_def
      floor_rat_numeral_divide)

section \<open>Lookup-code resolution\<close>

lemma normalize_numeric_token_digits:
  assumes "normalize_numeric_token v = Some t"
  shows "t \<noteq> [] \<and> list_all py_isdigit t"
proof -
  from assms obtain s where v: "v = Some s"
    by (cases v) (simp_all add: normalize_numeric_token_def)
  show ?thesis
  proof (cases "list_all py_isdigit (py_strip s)")
    case True
    with assms v show ?thesis
      by (auto simp: normalize_numeric_token_def Let_def split: if_splits)
  next
    case False
    with assms v have w: "int_or_whole_float (py_strip s)"
      and t: "t = takeWhile (\<lambda>c. c \<noteq> CHR ''.'') (py_strip s)"
      by (auto simp: normalize_numeric_token_def Let_def split: if_splits)
    from False have "\<not> list_all is_digit (py_strip s)"
      using list_all_py_isdigit by blast
    with w obtain ds zs where "py_strip s = ds @ CHR ''.'' # zs" "ds \<noteq> []"
      "list_all is_digit ds"
      unfolding int_or_whole_float_iff by blast
    then show ?thesis by (simp add: t takeWhile_not_dot list_all_py_isdigit)
  qed
qed

lemma first_norm_digits: "first_norm ts = Some t \<Longrightarrow> t \<noteq> [] \<and> list_all py_isdigit t"
proof (induction ts)
  case Nil
  then show ?case by simp
next
  case (Cons a ts)
  then show ?case
    by (cases "normalize_numeric_token (Some a)") (auto dest: normalize_numeric_token_digits)
qed

lemma side_token_eq:
  "side_token s =
     (case first_valid_numeric_from_list (Some s) of
        Some t \<Rightarrow> t
      | None \<Rightarrow> (case normalize_numeric_token (Some s) of Some u \<Rightarrow> u | None \<Rightarrow> []))"
  by (auto simp: side_token_def first_valid_numeric_from_list_def
      split: option.splits dest: first_norm_digits)

lemma side_token_digits: "side_token s \<noteq> [] \<Longrightarrow> list_all py_isdigit (side_token s)"
  unfolding side_token_eq
  by (auto simp: first_valid_numeric_from_list_def split: option.splits
      dest: first_norm_digits normalize_numeric_token_digits)

lemma side_int_eq:
  "side_int t =
     (if t \<noteq> [] \<and> list_all is_digit t \<and> length t \<le> max_str_digits
      then Some (digits_val t) else None)"
  by (simp add: side_int_def py_int_def)

lemma side_int_Some:
  "side_int t = Some a \<Longrightarrow> t \<noteq> [] \<and> list_all is_digit t"
  by (simp add: side_int_eq split: if_splits)

lemma get_lookup_code_eq:
  "get_lookup_code cc sc =
     (let pc = side_token (py_strip (case cc of None \<Rightarrow> [] | Some s \<Rightarrow> s));
          sk = side_token (py_strip (case sc of None \<Rightarrow> [] | Some s \<Rightarrow> s))
      in case (side_int pc, side_int sk) of
           (Some a, Some b) \<Rightarrow> if b \<le> a then pc else sk
         | (Some a, None) \<Rightarrow> pc
         | (None, Some b) \<Rightarrow> sk
         | (None, None) \<Rightarrow> [])"
  by (simp add: get_lookup_code_def Let_def)

lemma isdigit_not_space: "py_isdigit c \<Longrightarrow> \<not> is_space c"
  by (auto simp: py_isdigit_def is_digit_def is_space_def)

lemma py_strip_digits:
  assumes "list_all py_isdigit t"
  shows "py_strip t = t"
proof -
  have a: "dropWhile is_space t = t"
    using assms by (cases t) (simp_all add: isdigit_not_space)
  have "list_all py_isdigit (rev t)" using assms by (simp add: list_all_iff)
  then have "dropWhile is_space (rev t) = rev t"
    by (cases "rev t") (simp_all add: isdigit_not_space)
  with a show ?thesis by (simp add: py_strip_def)
qed

lemma re_split_digits: "list_all py_isdigit t \<Longrightarrow> re_split t = [t]"
  by (induction t) (auto simp: py_isdigit_def is_digit_def)

lemma side_token_verbatim:
  assumes "t \<noteq> []" and "list_all py_isdigit t"
  shows "side_token t = t"
  using assms
  by (simp add: side_token_eq first_valid_numeric_from_list_def re_split_digits
      normalize_numeric_token_def py_strip_digits)

lemmas resolver_defs =
  get_lookup_code_def side_token_def side_int_def first_valid_numeric_from_list_def
  normalize_numeric_token_def py_strip_def is_space_def py_isdigit_def is_digit_def
  int_or_whole_float_def py_int_def max_str_digits_def digits_val_def digit_val_def Let_def

text \<open>
  C4. Each side is resolved to a token: the first valid token of the list, else the
  normalized whole string, else the empty string; a non-empty token consists of digit
  characters. A side yields a numeric value when \<^verbatim>\<open>int\<close> accepts its token, that is when
  the token is a non-empty string of decimal digits no longer than \<^verbatim>\<open>int\<close> allows, and the
  value is \<^term>\<open>digits_val\<close> of the token. When both sides yield a value the resolver
  returns the token of larger value (the code side when the values are equal), when one
  side does it returns that token, when none does it returns the empty string. An absent
  cell counts as the empty string.
\<close>

theorem get_lookup_code_resolution:
  "(\<forall>s. side_token s =
        (case first_valid_numeric_from_list (Some s) of
           Some t \<Rightarrow> t
         | None \<Rightarrow> (case normalize_numeric_token (Some s) of Some u \<Rightarrow> u | None \<Rightarrow> []))) \<and>
   (\<forall>s. side_token s \<noteq> [] \<longrightarrow> list_all py_isdigit (side_token s)) \<and>
   (\<forall>t. side_int t =
        (if t \<noteq> [] \<and> list_all is_digit t \<and> length t \<le> max_str_digits
         then Some (digits_val t) else None)) \<and>
   (\<forall>c s a b. side_int (side_token (py_strip c)) = Some a \<and>
        side_int (side_token (py_strip s)) = Some b \<and> b < a \<longrightarrow>
        get_lookup_code (Some c) (Some s) = side_token (py_strip c)) \<and>
   (\<forall>c s a b. side_int (side_token (py_strip c)) = Some a \<and>
        side_int (side_token (py_strip s)) = Some b \<and> a < b \<longrightarrow>
        get_lookup_code (Some c) (Some s) = side_token (py_strip s)) \<and>
   (\<forall>c s a. side_int (side_token (py_strip c)) = Some a \<and>
        side_int (side_token (py_strip s)) = Some a \<longrightarrow>
        get_lookup_code (Some c) (Some s) = side_token (py_strip c)) \<and>
   (\<forall>c s a. side_int (side_token (py_strip c)) = Some a \<and>
        side_int (side_token (py_strip s)) = None \<longrightarrow>
        get_lookup_code (Some c) (Some s) = side_token (py_strip c)) \<and>
   (\<forall>c s b. side_int (side_token (py_strip c)) = None \<and>
        side_int (side_token (py_strip s)) = Some b \<longrightarrow>
        get_lookup_code (Some c) (Some s) = side_token (py_strip s)) \<and>
   (\<forall>c s. side_int (side_token (py_strip c)) = None \<and>
        side_int (side_token (py_strip s)) = None \<longrightarrow>
        get_lookup_code (Some c) (Some s) = []) \<and>
   (\<forall>sc. get_lookup_code None sc = get_lookup_code (Some []) sc) \<and>
   (\<forall>cc. get_lookup_code cc None = get_lookup_code cc (Some [])) \<and>
   get_lookup_code (Some ''50'') (Some ''120'') = ''120'' \<and>
   get_lookup_code (Some []) (Some ''77'') = ''77'' \<and>
   get_lookup_code (Some []) (Some ''abc'') = []"
proof (intro conjI allI impI)
  fix s
  show "side_token s =
        (case first_valid_numeric_from_list (Some s) of
           Some t \<Rightarrow> t
         | None \<Rightarrow> (case normalize_numeric_token (Some s) of Some u \<Rightarrow> u | None \<Rightarrow> []))"
    by (rule side_token_eq)
next
  fix s assume "side_token s \<noteq> []"
  then show "list_all py_isdigit (side_token s)"
    by (rule side_token_digits)
next
  fix t
  show "side_int t =
        (if t \<noteq> [] \<and> list_all is_digit t \<and> length t \<le> max_str_digits
         then Some (digits_val t) else None)"
    by (rule side_int_eq)
next
  show "get_lookup_code (Some ''50'') (Some ''120'') = ''120''"
    by (simp add: resolver_defs)
  show "get_lookup_code (Some []) (Some ''77'') = ''77''"
    by (simp add: resolver_defs)
  show "get_lookup_code (Some []) (Some ''abc'') = []"
    by (simp add: resolver_defs)
qed (simp_all add: get_lookup_code_eq)

theorem get_lookup_code_resolution_witness:
  "get_lookup_code (Some ''50'') (Some '' 120;9 '') = ''120'' \<and>
   get_lookup_code (Some ''x,200.0'') (Some ''77'') = ''200'' \<and>
   get_lookup_code (Some ''077'') (Some ''77'') = ''077'' \<and>
   get_lookup_code (Some ''12'') (Some ''abc'') = ''12'' \<and>
   get_lookup_code (Some (''182'' @ [CHR 0xA0])) (Some ''77'') = ''182'' \<and>
   get_lookup_code (Some ''77'') (Some [CHR 0xB9, CHR 0xB2]) = ''77'' \<and>
   get_lookup_code (Some []) (Some ''77'') = ''77'' \<and>
   get_lookup_code (Some []) (Some ''abc'') = [] \<and>
   get_lookup_code (Some ([CHR 0xB2] @ '';12'')) (Some []) = []"
proof -
  note T = get_lookup_code_resolution
  have t: "side_token (py_strip ''50'') = ''50''" "side_token (py_strip '' 120;9 '') = ''120''"
    "side_token (py_strip ''x,200.0'') = ''200''" "side_token (py_strip ''77'') = ''77''"
    "side_token (py_strip ''077'') = ''077''" "side_token (py_strip ''12'') = ''12''"
    "side_token (py_strip ''abc'') = []" "side_token (py_strip []) = []"
    "side_token (py_strip (''182'' @ [CHR 0xA0])) = ''182''"
    "side_token (py_strip [CHR 0xB9, CHR 0xB2]) = [CHR 0xB9, CHR 0xB2]"
    "side_token (py_strip ([CHR 0xB2] @ '';12'')) = [CHR 0xB2]"
    by (simp_all add: resolver_defs)
  have v: "side_int ''50'' = Some 50" "side_int ''120'' = Some 120" "side_int ''200'' = Some 200"
    "side_int ''77'' = Some 77" "side_int ''077'' = Some 77" "side_int ''12'' = Some 12"
    "side_int ''182'' = Some 182" "side_int [] = None"
    "side_int [CHR 0xB9, CHR 0xB2] = None" "side_int [CHR 0xB2] = None"
    by (simp_all add: side_int_def py_int_def max_str_digits_def is_digit_def digits_val_def
        digit_val_def)
  have a: "get_lookup_code (Some ''50'') (Some '' 120;9 '') = ''120''"
    using T [THEN conjunct2, THEN conjunct2, THEN conjunct2, THEN conjunct2, THEN conjunct1,
        rule_format, of "''50''" 50 "'' 120;9 ''" 120] t v by simp
  have b: "get_lookup_code (Some ''x,200.0'') (Some ''77'') = ''200''"
    using T [THEN conjunct2, THEN conjunct2, THEN conjunct2, THEN conjunct1, rule_format,
        of "''x,200.0''" 200 "''77''" 77] t v by simp
  have c: "get_lookup_code (Some ''077'') (Some ''77'') = ''077''"
    using T [THEN conjunct2, THEN conjunct2, THEN conjunct2, THEN conjunct2, THEN conjunct2,
        THEN conjunct1, rule_format, of "''077''" 77 "''77''"] t v by simp
  have d: "get_lookup_code (Some ''12'') (Some ''abc'') = ''12''"
    using T [THEN conjunct2, THEN conjunct2, THEN conjunct2, THEN conjunct2, THEN conjunct2,
        THEN conjunct2, THEN conjunct1, rule_format, of "''12''" 12 "''abc''"] t v by simp
  have d2: "get_lookup_code (Some (''182'' @ [CHR 0xA0])) (Some ''77'') = ''182''"
    using T [THEN conjunct2, THEN conjunct2, THEN conjunct2, THEN conjunct1, rule_format,
        of "''182'' @ [CHR 0xA0]" 182 "''77''" 77] t v by simp
  have d3: "get_lookup_code (Some ''77'') (Some [CHR 0xB9, CHR 0xB2]) = ''77''"
    using T [THEN conjunct2, THEN conjunct2, THEN conjunct2, THEN conjunct2, THEN conjunct2,
        THEN conjunct2, THEN conjunct1, rule_format, of "''77''" 77 "[CHR 0xB9, CHR 0xB2]"] t v
    by simp
  have e: "get_lookup_code (Some []) (Some ''77'') = ''77''"
    using T [THEN conjunct2, THEN conjunct2, THEN conjunct2, THEN conjunct2, THEN conjunct2,
        THEN conjunct2, THEN conjunct2, THEN conjunct1, rule_format, of "[]" "''77''" 77] t v
    by simp
  have f: "get_lookup_code (Some []) (Some ''abc'') = []"
    using T [THEN conjunct2, THEN conjunct2, THEN conjunct2, THEN conjunct2, THEN conjunct2,
        THEN conjunct2, THEN conjunct2, THEN conjunct2, THEN conjunct1, rule_format,
        of "[]" "''abc''"] t v
    by simp
  have g: "get_lookup_code (Some ([CHR 0xB2] @ '';12'')) (Some []) = []"
    using T [THEN conjunct2, THEN conjunct2, THEN conjunct2, THEN conjunct2, THEN conjunct2,
        THEN conjunct2, THEN conjunct2, THEN conjunct2, THEN conjunct1, rule_format,
        of "[CHR 0xB2] @ '';12''" "[]"] t v
    by simp
  from a b c d d2 d3 e f g show ?thesis by simp
qed

lemma transform_lookup_code_source:
  assumes "transform df = Inr out" and "o1 \<in> set out"
  shows "\<exists>r\<in>set (stage_B (stage_A (rows df))). \<exists>cost.
           o1 = stage_D (derive (''unit_count'' \<in> set (columns df)) r cost) \<and>
           lookup_code o1 = get_lookup_code (code r) (sku r)"
proof -
  from assms(1) obtain costs where
    out: "out = stage_G (stage_F
                 (map (\<lambda>(r, cost). stage_D (derive (''unit_count'' \<in> set (columns df)) r cost))
                    (zip (stage_B (stage_A (rows df))) costs)))"
    by (auto simp: transform_def Let_def split: sum.splits)
  from assms(2) have "o1 \<in> set (map (\<lambda>(r, cost). stage_D (derive (''unit_count'' \<in> set (columns df)) r cost))
                    (zip (stage_B (stage_A (rows df))) costs))"
    unfolding out using set_stage_G by (fastforce simp: stage_F_def)
  then obtain r cost where rc: "(r, cost) \<in> set (zip (stage_B (stage_A (rows df))) costs)"
    and o: "o1 = stage_D (derive (''unit_count'' \<in> set (columns df)) r cost)"
    by auto
  from rc have "r \<in> set (stage_B (stage_A (rows df)))" by (rule set_zip_leftD)
  with o show ?thesis by (auto simp: lookup_code_stage_D_derive)
qed

text \<open>
  C9. When the trimmed code is a digit string that \<^verbatim>\<open>int\<close> accepts and the sku side yields
  no value or a value that is not larger, the lookup code is the trimmed code, character for
  character; likewise for such a sku against a code side that yields no value or a smaller
  one. Leading zeros are kept although the sides are compared by value. A string of decimal
  digits longer than \<^verbatim>\<open>int\<close> allows yields no value and cannot win. Every output row is
  derived from a row that passed stages A and B, and its lookup code is the resolver's result
  for that row.
\<close>

theorem lookup_code_verbatim:
  "(\<forall>c sc a. side_int (py_strip c) = Some a \<and>
        (side_int (side_token (py_strip (case sc of None \<Rightarrow> [] | Some s \<Rightarrow> s))) = None \<or>
         (\<exists>b. side_int (side_token (py_strip (case sc of None \<Rightarrow> [] | Some s \<Rightarrow> s))) = Some b \<and>
              b \<le> a)) \<longrightarrow>
        get_lookup_code (Some c) sc = py_strip c) \<and>
   (\<forall>cc s b. side_int (py_strip s) = Some b \<and>
        (side_int (side_token (py_strip (case cc of None \<Rightarrow> [] | Some c \<Rightarrow> c))) = None \<or>
         (\<exists>a. side_int (side_token (py_strip (case cc of None \<Rightarrow> [] | Some c \<Rightarrow> c))) = Some a \<and>
              a < b)) \<longrightarrow>
        get_lookup_code cc (Some s) = py_strip s) \<and>
   (\<forall>t a. side_int t = Some a \<longleftrightarrow>
        t \<noteq> [] \<and> list_all is_digit t \<and> length t \<le> max_str_digits \<and> a = digits_val t) \<and>
   (\<forall>c. list_all is_digit (py_strip c) \<and> max_str_digits < length (py_strip c) \<longrightarrow>
        get_lookup_code (Some c) None = []) \<and>
   (\<forall>df out o1. transform df = Inr out \<and> o1 \<in> set out \<longrightarrow>
        (\<exists>r\<in>set (stage_B (stage_A (rows df))). \<exists>cost.
           o1 = stage_D (derive (''unit_count'' \<in> set (columns df)) r cost) \<and>
           lookup_code o1 = get_lookup_code (code r) (sku r))) \<and>
   get_lookup_code (Some ''007'') None = ''007'' \<and>
   get_lookup_code (Some ''007'') (Some ''5'') = ''007'' \<and>
   digits_val ''007'' = 7"
proof (intro conjI allI impI)
  fix c sc a
  assume h: "side_int (py_strip c) = Some a \<and>
        (side_int (side_token (py_strip (case sc of None \<Rightarrow> [] | Some s \<Rightarrow> s))) = None \<or>
         (\<exists>b. side_int (side_token (py_strip (case sc of None \<Rightarrow> [] | Some s \<Rightarrow> s))) = Some b \<and>
              b \<le> a))"
  then have "py_strip c \<noteq> [] \<and> list_all is_digit (py_strip c)"
    using side_int_Some by blast
  then have "side_token (py_strip c) = py_strip c"
    by (simp add: side_token_verbatim list_all_py_isdigit)
  with h show "get_lookup_code (Some c) sc = py_strip c"
    by (auto simp: get_lookup_code_eq Let_def)
next
  fix cc s b
  assume h: "side_int (py_strip s) = Some b \<and>
        (side_int (side_token (py_strip (case cc of None \<Rightarrow> [] | Some c \<Rightarrow> c))) = None \<or>
         (\<exists>a. side_int (side_token (py_strip (case cc of None \<Rightarrow> [] | Some c \<Rightarrow> c))) = Some a \<and>
              a < b))"
  then have "py_strip s \<noteq> [] \<and> list_all is_digit (py_strip s)"
    using side_int_Some by blast
  then have "side_token (py_strip s) = py_strip s"
    by (simp add: side_token_verbatim list_all_py_isdigit)
  with h show "get_lookup_code cc (Some s) = py_strip s"
    by (auto simp: get_lookup_code_eq Let_def)
next
  fix t a
  show "side_int t = Some a \<longleftrightarrow>
        t \<noteq> [] \<and> list_all is_digit t \<and> length t \<le> max_str_digits \<and> a = digits_val t"
    by (auto simp: side_int_eq)
next
  fix c
  assume h: "list_all is_digit (py_strip c) \<and> max_str_digits < length (py_strip c)"
  then have "py_strip c \<noteq> []" by auto
  with h have "side_token (py_strip c) = py_strip c"
    by (simp add: side_token_verbatim list_all_py_isdigit)
  moreover have "side_int (py_strip c) = None"
    using h by (simp add: side_int_eq)
  moreover have "side_int (side_token (py_strip [])) = None"
    by (simp add: resolver_defs)
  ultimately show "get_lookup_code (Some c) None = []"
    by (simp add: get_lookup_code_eq Let_def)
next
  fix df out o1 assume "transform df = Inr out \<and> o1 \<in> set out"
  then show "\<exists>r\<in>set (stage_B (stage_A (rows df))). \<exists>cost.
           o1 = stage_D (derive (''unit_count'' \<in> set (columns df)) r cost) \<and>
           lookup_code o1 = get_lookup_code (code r) (sku r)"
    using transform_lookup_code_source by blast
next
  show "get_lookup_code (Some ''007'') None = ''007''" by (simp add: resolver_defs)
  show "get_lookup_code (Some ''007'') (Some ''5'') = ''007''" by (simp add: resolver_defs)
  show "digits_val ''007'' = 7" by (simp add: digits_val_def digit_val_def)
qed

theorem lookup_code_verbatim_witness:
  "get_lookup_code (Some '' 007 '') (Some ''5;x'') = ''007'' \<and>
   get_lookup_code (Some ''3.0'') (Some ''0042'') = ''0042'' \<and>
   get_lookup_code (Some ''007'') (Some (''182'' @ [CHR 0xA0])) = ''182'' \<and>
   get_lookup_code (Some ''007'') (Some [CHR 0xB9, CHR 0xB2]) = ''007''"
proof -
  note T = lookup_code_verbatim
  have s: "py_strip '' 007 '' = ''007''" "py_strip ''0042'' = ''0042''"
    "py_strip (''182'' @ [CHR 0xA0]) = ''182''" "py_strip ''007'' = ''007''"
    by (simp_all add: py_strip_def is_space_def)
  have t: "side_token (py_strip ''5;x'') = ''5''" "side_token (py_strip ''3.0'') = ''3''"
    "side_token (py_strip ''007'') = ''007''"
    "side_token (py_strip [CHR 0xB9, CHR 0xB2]) = [CHR 0xB9, CHR 0xB2]"
    by (simp_all add: resolver_defs)
  have v: "side_int ''5'' = Some 5" "side_int ''007'' = Some 7" "side_int ''3'' = Some 3"
    "side_int ''0042'' = Some 42" "side_int ''182'' = Some 182"
    "side_int [CHR 0xB9, CHR 0xB2] = None"
    by (simp_all add: side_int_def py_int_def max_str_digits_def is_digit_def digits_val_def
        digit_val_def)
  have a: "get_lookup_code (Some '' 007 '') (Some ''5;x'') = ''007''"
    using T [THEN conjunct1, rule_format, of "'' 007 ''" 7 "Some ''5;x''"] s t v
    by simp
  have b: "get_lookup_code (Some ''3.0'') (Some ''0042'') = ''0042''"
    using T [THEN conjunct2, THEN conjunct1, rule_format, of "''0042''" 42 "Some ''3.0''"] s t v
    by simp
  have c: "get_lookup_code (Some ''007'') (Some (''182'' @ [CHR 0xA0])) = ''182''"
    using T [THEN conjunct2, THEN conjunct1, rule_format,
        of "''182'' @ [CHR 0xA0]" 182 "Some ''007''"] s t v
    by simp
  have d: "get_lookup_code (Some ''007'') (Some [CHR 0xB9, CHR 0xB2]) = ''007''"
    using T [THEN conjunct1, rule_format, of "''007''" 7 "Some [CHR 0xB9, CHR 0xB2]"] s t v
    by simp
  from a b c d show ?thesis by simp
qed

section \<open>Size and unit extraction: the rules\<close>

subsection \<open>Words\<close>

lemma split_ws_no_space:
  "\<forall>c\<in>set acc. \<not> is_space c \<Longrightarrow> w \<in> set (split_ws acc s) \<Longrightarrow>
     w \<noteq> [] \<and> (\<forall>c\<in>set w. \<not> is_space c)"
proof (induction s arbitrary: acc)
  case Nil
  then show ?case by (auto split: if_splits)
next
  case (Cons a s)
  show ?case
  proof (cases "is_space a")
    case True
    with Cons.prems have "w = acc \<and> acc \<noteq> [] \<or> w \<in> set (split_ws [] s)"
      by (auto split: if_splits)
    then show ?thesis
    proof
      assume "w = acc \<and> acc \<noteq> []"
      with Cons.prems show ?thesis by simp
    next
      assume "w \<in> set (split_ws [] s)"
      with Cons.IH [of "[]"] show ?thesis by simp
    qed
  next
    case False
    with Cons.prems have "w \<in> set (split_ws (acc @ [a]) s)" by simp
    moreover have "\<forall>c\<in>set (acc @ [a]). \<not> is_space c" using Cons.prems False by simp
    ultimately show ?thesis using Cons.IH by blast
  qed
qed

lemma py_split_no_space:
  "w \<in> set (py_split s) \<Longrightarrow> w \<noteq> [] \<and> (\<forall>c\<in>set w. \<not> is_space c)"
  unfolding py_split_def using split_ws_no_space [of "[]"] by simp

lemma split_ws_leading: "split_ws [] (dropWhile is_space s) = split_ws [] s"
  by (induction s) simp_all

lemma split_ws_spaces:
  "list_all is_space t \<Longrightarrow> split_ws acc t = (if acc = [] then [] else [acc])"
  by (induction t arbitrary: acc) simp_all

lemma split_ws_trailing:
  "list_all is_space t \<Longrightarrow> split_ws acc (s @ t) = split_ws acc s"
  by (induction s arbitrary: acc) (simp_all add: split_ws_spaces)

lemma py_split_py_strip: "py_split (py_strip s) = py_split s"
proof -
  define u where "u = dropWhile is_space s"
  define t where "t = rev (takeWhile is_space (rev u))"
  have "u = rev (dropWhile is_space (rev u)) @ rev (takeWhile is_space (rev u))"
    by (metis rev_append rev_rev_ident takeWhile_dropWhile_id)
  then have u: "u = py_strip s @ t"
    by (simp add: py_strip_def t_def u_def)
  have "list_all is_space t"
    by (auto simp: t_def list_all_iff dest: set_takeWhileD)
  then have "split_ws [] (py_strip s @ t) = split_ws [] (py_strip s)"
    by (rule split_ws_trailing)
  then have "py_split (py_strip s) = split_ws [] u" by (simp add: py_split_def u)
  also have "\<dots> = py_split s" by (simp add: u_def py_split_def split_ws_leading)
  finally show ?thesis .
qed

subsection \<open>The size token\<close>

lemma alpha_not_digit: "is_alpha c \<Longrightarrow> \<not> is_digit c"
  by (auto simp: is_alpha_def is_digit_def)

lemma alpha_not_dot: "is_alpha c \<Longrightarrow> c \<noteq> CHR ''.''"
  by (auto simp: is_alpha_def)

lemma takeWhile_stop:
  "list_all P xs \<Longrightarrow> ys = [] \<or> \<not> P (hd ys) \<Longrightarrow> takeWhile P (xs @ ys) = xs"
  by (induction xs) (auto simp: takeWhile_eq_Nil_iff)

lemma dropWhile_stop:
  "list_all P xs \<Longrightarrow> ys = [] \<or> \<not> P (hd ys) \<Longrightarrow> dropWhile P (xs @ ys) = ys"
  by (induction xs) (auto simp: dropWhile_eq_self_iff)

lemma list_all_takeWhile: "list_all P (takeWhile P xs)"
  by (auto simp: list_all_iff dest: set_takeWhileD)

lemma match_size_token_complete:
  assumes "decimal_numeral num" and "ls \<noteq> []" and "list_all is_alpha ls"
  shows "match_size_token (num @ ls) = Some (num, ls)"
proof -
  obtain c r where ls: "ls = c # r" using assms(2) by (cases ls) auto
  with assms(3) have c: "is_alpha c" by simp
  have hd: "ls = [] \<or> \<not> is_digit (hd ls)" using ls c by (simp add: alpha_not_digit)
  have al: "takeWhile is_alpha ls = ls" "dropWhile is_alpha ls = []"
    using assms(3) by (simp_all add: list_all_iff)
  from assms(1) show ?thesis
    unfolding decimal_numeral_def
  proof
    assume "all_digits num"
    then have n: "num \<noteq> []" "list_all is_digit num" by (simp_all add: all_digits_def)
    have tw: "takeWhile is_digit (num @ ls) = num" and dw: "dropWhile is_digit (num @ ls) = ls"
      using n hd by (simp_all add: takeWhile_stop dropWhile_stop)
    have p: "(case ls of
                 [] \<Rightarrow> (num, ls)
               | c # r \<Rightarrow>
                   if c = CHR ''.'' \<and> takeWhile is_digit r \<noteq> []
                   then (num @ c # takeWhile is_digit r, dropWhile is_digit r)
                   else (num, ls)) = (num, ls)"
      using ls c by (simp add: alpha_not_dot)
    show ?thesis
      unfolding match_size_token_def Let_def tw dw p prod.case al
      using n assms(2) by simp
  next
    assume "\<exists>ds fs. num = ds @ CHR ''.'' # fs \<and> all_digits ds \<and> all_digits fs"
    then obtain ds fs where num: "num = ds @ CHR ''.'' # fs" and ds: "ds \<noteq> []"
      "list_all is_digit ds" and fs: "fs \<noteq> []" "list_all is_digit fs"
      by (auto simp: all_digits_def)
    have a: "takeWhile is_digit ((ds @ CHR ''.'' # fs) @ ls) = ds"
      "dropWhile is_digit ((ds @ CHR ''.'' # fs) @ ls) = CHR ''.'' # fs @ ls"
      using ds by (simp_all add: takeWhile_digits_dot dropWhile_digits_dot)
    have b: "takeWhile is_digit (fs @ ls) = fs" "dropWhile is_digit (fs @ ls) = ls"
      using fs hd by (simp_all add: takeWhile_stop dropWhile_stop)
    have q: "(case CHR ''.'' # fs @ ls of
                 [] \<Rightarrow> (ds, CHR ''.'' # fs @ ls)
               | c # r \<Rightarrow>
                   if c = CHR ''.'' \<and> takeWhile is_digit r \<noteq> []
                   then (ds @ c # takeWhile is_digit r, dropWhile is_digit r)
                   else (ds, CHR ''.'' # fs @ ls)) = (ds @ CHR ''.'' # fs, ls)"
      using b fs by simp
    show ?thesis
      unfolding num match_size_token_def Let_def a q prod.case al
      using ds assms(2) by simp
  qed
qed

lemma match_size_token_sound:
  assumes "match_size_token w = Some (num, ls)" and "CHR 0x0A \<notin> set w"
  shows "w = num @ ls \<and> decimal_numeral num \<and> ls \<noteq> [] \<and> list_all is_alpha ls"
proof -
  define ds where "ds = takeWhile is_digit w"
  define r1 where "r1 = dropWhile is_digit w"
  define p where "p = (case r1 of
                 [] \<Rightarrow> (ds, r1)
               | c # r \<Rightarrow>
                   if c = CHR ''.'' \<and> takeWhile is_digit r \<noteq> []
                   then (ds @ c # takeWhile is_digit r, dropWhile is_digit r)
                   else (ds, r1))"
  have w: "w = ds @ r1" by (simp add: ds_def r1_def)
  have dd: "list_all is_digit ds" unfolding ds_def by (rule list_all_takeWhile)
  from assms(1) have ne: "ds \<noteq> []"
    by (auto simp: match_size_token_def ds_def Let_def split: if_splits)
  from assms(1) ne have m: "num = fst p" "ls = takeWhile is_alpha (snd p)"
    "ls \<noteq> []" "dropWhile is_alpha (snd p) = [] \<or> dropWhile is_alpha (snd p) = [CHR 0x0A]"
    by (auto simp: match_size_token_def Let_def ds_def [symmetric] r1_def [symmetric]
        p_def [symmetric] split: if_splits prod.splits)
  have wp: "w = fst p @ snd p" and dn: "decimal_numeral (fst p)"
  proof -
    show "w = fst p @ snd p"
      using w by (auto simp: p_def split: list.splits)
    show "decimal_numeral (fst p)"
    proof (cases "\<exists>r. r1 = CHR ''.'' # r \<and> takeWhile is_digit r \<noteq> []")
      case True
      then obtain r where r: "r1 = CHR ''.'' # r" "takeWhile is_digit r \<noteq> []" by blast
      then have "fst p = ds @ CHR ''.'' # takeWhile is_digit r" by (simp add: p_def)
      moreover have "all_digits ds" "all_digits (takeWhile is_digit r)"
        using ne dd r by (simp_all add: all_digits_def list_all_takeWhile)
      ultimately show ?thesis unfolding decimal_numeral_def by blast
    next
      case False
      then have "fst p = ds" by (auto simp: p_def split: list.splits)
      then show ?thesis using ne dd by (simp add: decimal_numeral_def all_digits_def)
    qed
  qed
  have "dropWhile is_alpha (snd p) \<noteq> [CHR 0x0A]"
  proof
    assume e: "dropWhile is_alpha (snd p) = [CHR 0x0A]"
    have "set (dropWhile is_alpha (snd p)) \<subseteq> set (snd p)" by (rule set_dropWhileD [THEN subsetI])
    with e have "CHR 0x0A \<in> set (snd p)" by simp
    with wp assms(2) show False by (metis Un_iff set_append)
  qed
  with m(4) have "dropWhile is_alpha (snd p) = []" by blast
  then have "snd p = ls" unfolding m(2) by (metis append_Nil2 takeWhile_dropWhile_id)
  have 1: "w = num @ ls" using wp m(1) \<open>snd p = ls\<close> by simp
  have 2: "list_all is_alpha ls" by (subst m(2)) (rule list_all_takeWhile)
  have 3: "decimal_numeral num" using dn m(1) by simp
  from 1 2 3 m(3) show ?thesis by blast
qed

lemma newline_is_space: "is_space (CHR 0x0A)"
  by (simp add: is_space_def)

lemma size_of_token_shape:
  assumes "spec_token_shape decimal_numeral w num ls"
  shows "size_of_token w = Some (parsed_number num, lower ls)"
proof -
  from assms have "match_size_token w = Some (num, ls)" and "lower ls \<in> set allowed"
    by (simp_all add: spec_token_shape_def match_size_token_complete)
  then show ?thesis by (simp add: size_of_token_def parsed_number_def)
qed

lemma size_of_token_Some:
  assumes "size_of_token w = Some (n, u)" and "\<forall>c\<in>set w. \<not> is_space c"
  shows "\<exists>num ls. spec_token_shape decimal_numeral w num ls \<and>
           n = parsed_number num \<and> u = lower ls"
proof -
  from assms(1) obtain num ls where m: "match_size_token w = Some (num, ls)"
    and a: "lower ls \<in> set allowed" and n: "n = parsed_number num" and u: "u = lower ls"
    by (auto simp: size_of_token_def parsed_number_def Let_def
        split: option.splits prod.splits if_splits)
  have "CHR 0x0A \<notin> set w" using assms(2) newline_is_space by blast
  with m have "w = num @ ls \<and> decimal_numeral num \<and> ls \<noteq> [] \<and> list_all is_alpha ls"
    by (rule match_size_token_sound)
  with a have "spec_token_shape decimal_numeral w num ls" by (simp add: spec_token_shape_def)
  with n u show ?thesis by blast
qed

lemma py_float_digits:
  assumes "all_digits num"
  shows "py_float num = Some (of_int (digits_val num))"
proof -
  from assms have ne: "num \<noteq> []" and d: "list_all is_digit num"
    by (simp_all add: all_digits_def)
  have tw: "takeWhile is_digit num = num" and dw: "dropWhile is_digit num = []"
    using d by (simp_all add: list_all_iff)
  show ?thesis unfolding py_float_def Let_def tw dw using ne by simp
qed

lemma py_float_decimal: "decimal_numeral num \<Longrightarrow> py_float num \<noteq> None"
  unfolding decimal_numeral_def
proof (elim disjE exE conjE)
  assume "all_digits num"
  then show ?thesis by (simp add: py_float_digits)
next
  fix ds fs assume "num = ds @ CHR ''.'' # fs" "all_digits ds" "all_digits fs"
  then show ?thesis
    by (simp add: py_float_def all_digits_def takeWhile_digits_dot dropWhile_digits_dot)
qed

lemma parsed_number_digits: "all_digits num \<Longrightarrow> parsed_number num = of_int (digits_val num)"
  by (simp add: parsed_number_def py_float_digits)

lemma split_last_two:
  assumes "2 \<le> length xs"
  shows "xs = take (length xs - 2) xs @ [xs ! (length xs - 2), last xs]"
proof -
  from assms have "xs \<noteq> []" by auto
  then obtain ys b where x: "xs = ys @ [b]" by (metis rev_exhaust)
  with assms have "ys \<noteq> []" by auto
  then obtain zs a where y: "ys = zs @ [a]" by (metis rev_exhaust)
  show ?thesis unfolding x y by (simp add: nth_append)
qed

lemma extract_size_and_unit_words:
  "extract_size_and_unit (Some nm) =
     (let words = py_split nm in
      if words = [] then (Some nm, 1, ''each'')
      else
        (case (if lower (last words) = ''each'' \<and> 2 \<le> length words
               then size_of_token (words ! (length words - 2)) else None) of
           Some (num, unit) \<Rightarrow> (Some (join_sp (take (length words - 2) words)), num, unit)
         | None \<Rightarrow>
             (case size_of_token (last words) of
                Some (num, unit) \<Rightarrow> (Some (join_sp (butlast words)), num, unit)
              | None \<Rightarrow> (Some nm, 1, ''each''))))"
  by (simp add: extract_size_and_unit_def py_split_py_strip)

lemma rule1_result:
  assumes "spec_rule1 decimal_numeral nm ws num ls"
  shows "extract_size_and_unit (Some nm) = (Some (join_sp ws), parsed_number num, lower ls)"
proof -
  from assms obtain w e where s: "py_split nm = ws @ [w, e]" and e: "lower e = ''each''"
    and t: "spec_token_shape decimal_numeral w num ls"
    by (auto simp: spec_rule1_def)
  have "size_of_token w = Some (parsed_number num, lower ls)"
    using t by (rule size_of_token_shape)
  then show ?thesis
    unfolding extract_size_and_unit_words s using e by (simp add: nth_append)
qed

lemma no_rule1:
  assumes "\<not> (\<exists>ws num ls. spec_rule1 decimal_numeral nm ws num ls)"
  shows "(if lower (last (py_split nm)) = ''each'' \<and> 2 \<le> length (py_split nm)
          then size_of_token (py_split nm ! (length (py_split nm) - 2)) else None) = None"
proof (rule ccontr)
  assume "\<not> ?thesis"
  then obtain n u where e: "lower (last (py_split nm)) = ''each''"
    and l: "2 \<le> length (py_split nm)"
    and s: "size_of_token (py_split nm ! (length (py_split nm) - 2)) = Some (n, u)"
    by (auto split: if_splits)
  let ?w = "py_split nm ! (length (py_split nm) - 2)"
  have "?w \<in> set (py_split nm)" using l by simp
  then have "\<forall>c\<in>set ?w. \<not> is_space c" using py_split_no_space by blast
  with s obtain num ls where "spec_token_shape decimal_numeral ?w num ls"
    using size_of_token_Some by blast
  moreover note split_last_two [OF l] e
  ultimately have "spec_rule1 decimal_numeral nm (take (length (py_split nm) - 2) (py_split nm)) num ls"
    unfolding spec_rule1_def by blast
  with assms show False by blast
qed

lemma rule2_result:
  assumes "\<not> (\<exists>ws num ls. spec_rule1 decimal_numeral nm ws num ls)"
    and "spec_rule2 decimal_numeral nm ws num ls"
  shows "extract_size_and_unit (Some nm) = (Some (join_sp ws), parsed_number num, lower ls)"
proof -
  from assms(2) obtain w where s: "py_split nm = ws @ [w]"
    and t: "spec_token_shape decimal_numeral w num ls"
    by (auto simp: spec_rule2_def)
  have "size_of_token (last (py_split nm)) = Some (parsed_number num, lower ls)"
    using t s by (simp add: size_of_token_shape)
  moreover have "py_split nm \<noteq> []" "butlast (py_split nm) = ws" using s by simp_all
  ultimately show ?thesis
    unfolding extract_size_and_unit_words Let_def no_rule1 [OF assms(1)] by simp
qed

lemma no_rule2:
  assumes "\<not> (\<exists>ws num ls. spec_rule2 decimal_numeral nm ws num ls)" and "py_split nm \<noteq> []"
  shows "size_of_token (last (py_split nm)) = None"
proof (rule ccontr)
  assume "\<not> ?thesis"
  then obtain n u where s: "size_of_token (last (py_split nm)) = Some (n, u)" by auto
  have "last (py_split nm) \<in> set (py_split nm)" using assms(2) by simp
  then have "\<forall>c\<in>set (last (py_split nm)). \<not> is_space c" using py_split_no_space by blast
  with s obtain num ls where "spec_token_shape decimal_numeral (last (py_split nm)) num ls"
    using size_of_token_Some by blast
  moreover have "py_split nm = butlast (py_split nm) @ [last (py_split nm)]"
    using assms(2) by simp
  ultimately have "spec_rule2 decimal_numeral nm (butlast (py_split nm)) num ls"
    unfolding spec_rule2_def by blast
  with assms(1) show False by blast
qed

lemma rule3_result:
  assumes "\<not> (\<exists>ws num ls. spec_rule1 decimal_numeral nm ws num ls)"
    and "\<not> (\<exists>ws num ls. spec_rule2 decimal_numeral nm ws num ls)"
  shows "extract_size_and_unit (Some nm) = (Some nm, 1, ''each'')"
proof (cases "py_split nm = []")
  case True
  then show ?thesis by (simp add: extract_size_and_unit_words)
next
  case False
  then show ?thesis
    unfolding extract_size_and_unit_words Let_def no_rule1 [OF assms(1)]
    by (simp add: no_rule2 [OF assms(2)])
qed

text \<open>
  C5, amended. With a size token read as a number (digits, optionally a point and more
  digits) followed by letters that are an allowed unit: when the last word is \<^verbatim>\<open>each\<close>
  and the word before it is a size token, both words are stripped (rule 1); otherwise,
  when the last word is a size token, that word is stripped (rule 2); otherwise the name is
  returned unchanged with size 1 and unit \<^verbatim>\<open>each\<close> (rule 3). Rule 1 needs no proviso about
  rule 2, so it takes precedence. The number of a size token always parses. Words are
  the runs of characters between the whitespace of \<^verbatim>\<open>str.split\<close>, which includes the
  no-break space.
\<close>

theorem extract_size_and_unit_rules:
  "(\<forall>nm ws num ls. spec_rule1 decimal_numeral nm ws num ls \<longrightarrow>
       extract_size_and_unit (Some nm) = (Some (join_sp ws), parsed_number num, lower ls)) \<and>
   (\<forall>nm ws num ls. \<not> (\<exists>ws' num' ls'. spec_rule1 decimal_numeral nm ws' num' ls') \<and>
       spec_rule2 decimal_numeral nm ws num ls \<longrightarrow>
       extract_size_and_unit (Some nm) = (Some (join_sp ws), parsed_number num, lower ls)) \<and>
   (\<forall>nm. \<not> (\<exists>ws num ls. spec_rule1 decimal_numeral nm ws num ls) \<and>
       \<not> (\<exists>ws num ls. spec_rule2 decimal_numeral nm ws num ls) \<longrightarrow>
       extract_size_and_unit (Some nm) = (Some nm, 1, ''each'')) \<and>
   (\<forall>num. decimal_numeral num \<longrightarrow> py_float num \<noteq> None) \<and>
   (\<forall>num. all_digits num \<longrightarrow> parsed_number num = of_int (digits_val num)) \<and>
   extract_size_and_unit (Some ''Chips 50g each'') = (Some ''Chips'', 50, ''g'')"
proof (intro conjI allI impI)
  fix nm ws num ls
  assume "spec_rule1 decimal_numeral nm ws num ls"
  then show "extract_size_and_unit (Some nm) = (Some (join_sp ws), parsed_number num, lower ls)"
    by (rule rule1_result)
next
  fix nm ws num ls
  assume "\<not> (\<exists>ws' num' ls'. spec_rule1 decimal_numeral nm ws' num' ls') \<and>
       spec_rule2 decimal_numeral nm ws num ls"
  then show "extract_size_and_unit (Some nm) = (Some (join_sp ws), parsed_number num, lower ls)"
    using rule2_result by blast
next
  fix nm
  assume "\<not> (\<exists>ws num ls. spec_rule1 decimal_numeral nm ws num ls) \<and>
       \<not> (\<exists>ws num ls. spec_rule2 decimal_numeral nm ws num ls)"
  then show "extract_size_and_unit (Some nm) = (Some nm, 1, ''each'')"
    using rule3_result by blast
next
  fix num assume "decimal_numeral num"
  then show "py_float num \<noteq> None" by (rule py_float_decimal)
next
  fix num assume "all_digits num"
  then show "parsed_number num = of_int (digits_val num)" by (rule parsed_number_digits)
next
  show "extract_size_and_unit (Some ''Chips 50g each'') = (Some ''Chips'', 50, ''g'')"
    by (simp add: extract_size_and_unit_def py_strip_def py_split_def is_space_def lower_def
        to_lower_def upper_chars_def lower_chars_def size_of_token_def match_size_token_def is_digit_def is_alpha_def
        allowed_def py_float_def digits_val_def digit_val_def)
qed

lemma rule1_last_each:
  "spec_rule1 nshape nm ws num ls \<Longrightarrow> lower (last (py_split nm)) = ''each''"
  by (auto simp: spec_rule1_def)

lemma rule2_decimal_token:
  "spec_rule2 decimal_numeral nm ws num ls \<Longrightarrow> size_of_token (last (py_split nm)) \<noteq> None"
  by (auto simp: spec_rule2_def size_of_token_shape)

lemma rule2_digits_no_dot:
  "spec_rule2 all_digits nm ws num ls \<Longrightarrow> CHR ''.'' \<notin> set (last (py_split nm))"
  by (auto simp: spec_rule2_def spec_token_shape_def all_digits_def list_all_iff
      dot_not_digit dest: alpha_not_dot)

lemmas extract_defs =
  extract_size_and_unit_def py_strip_def py_split_def is_space_def lower_def to_lower_def upper_chars_def lower_chars_def
  size_of_token_def match_size_token_def is_digit_def is_alpha_def allowed_def py_float_def
  digits_val_def digit_val_def

theorem extract_size_and_unit_rules_witness:
  "extract_size_and_unit (Some ''Chips 50g each'') = (Some ''Chips'', 50, ''g'') \<and>
   extract_size_and_unit (Some ''Olive Oil 500ml'') = (Some ''Olive Oil'', 500, ''ml'') \<and>
   extract_size_and_unit (Some (''Olive Oil'' @ CHR 0xA0 # ''500ml'')) =
     (Some ''Olive Oil'', 500, ''ml'') \<and>
   extract_size_and_unit (Some ''Plain Water'') = (Some ''Plain Water'', 1, ''each'')"
proof -
  note T = extract_size_and_unit_rules
  have sp: "py_split ''Chips 50g each'' = [''Chips''] @ [''50g'', ''each'']"
    "py_split ''Olive Oil 500ml'' = [''Olive'', ''Oil''] @ [''500ml'']"
    "py_split ''Plain Water'' = [''Plain'', ''Water'']"
    "py_split (''Olive Oil'' @ CHR 0xA0 # ''500ml'') = [''Olive'', ''Oil''] @ [''500ml'']"
    by (simp_all add: py_split_def is_space_def)
  have sh: "spec_token_shape decimal_numeral ''50g'' ''50'' ''g''"
    "spec_token_shape decimal_numeral ''500ml'' ''500'' ''ml''"
    by (simp_all add: spec_token_shape_def decimal_numeral_def all_digits_def is_digit_def
        is_alpha_def lower_def to_lower_def upper_chars_def lower_chars_def allowed_def)
  have pn: "parsed_number ''50'' = 50" "parsed_number ''500'' = 500"
    by (simp_all add: parsed_number_def py_float_def is_digit_def digits_val_def digit_val_def)
  have lo: "lower ''each'' = ''each''" "lower ''g'' = ''g''" "lower ''ml'' = ''ml''"
    "lower ''500ml'' \<noteq> ''each''" "lower ''Water'' \<noteq> ''each''"
    by (simp_all add: lower_def to_lower_def upper_chars_def lower_chars_def)
  have r1: "spec_rule1 decimal_numeral ''Chips 50g each'' [''Chips''] ''50'' ''g''"
    unfolding spec_rule1_def using sp(1) sh(1) lo(1) by blast
  have a: "extract_size_and_unit (Some ''Chips 50g each'') = (Some ''Chips'', 50, ''g'')"
    using T [THEN conjunct1, rule_format, OF r1] pn lo by simp
  have n1: "\<not> (\<exists>ws num ls. spec_rule1 decimal_numeral ''Olive Oil 500ml'' ws num ls)"
    using rule1_last_each [of decimal_numeral "''Olive Oil 500ml''"] sp(2) lo(4) by auto
  have r2: "spec_rule2 decimal_numeral ''Olive Oil 500ml'' [''Olive'', ''Oil''] ''500'' ''ml''"
    unfolding spec_rule2_def using sp(2) sh(2) by blast
  have b: "extract_size_and_unit (Some ''Olive Oil 500ml'') = (Some ''Olive Oil'', 500, ''ml'')"
    using T [THEN conjunct2, THEN conjunct1, rule_format, OF conjI, OF n1 r2] pn lo by simp
  have n1': "\<not> (\<exists>ws num ls. spec_rule1 decimal_numeral (''Olive Oil'' @ CHR 0xA0 # ''500ml'')
                 ws num ls)"
    using rule1_last_each [of decimal_numeral "''Olive Oil'' @ CHR 0xA0 # ''500ml''"] sp(4) lo(4)
    by auto
  have r2': "spec_rule2 decimal_numeral (''Olive Oil'' @ CHR 0xA0 # ''500ml'')
               [''Olive'', ''Oil''] ''500'' ''ml''"
    unfolding spec_rule2_def using sp(4) sh(2) by blast
  have b': "extract_size_and_unit (Some (''Olive Oil'' @ CHR 0xA0 # ''500ml'')) =
     (Some ''Olive Oil'', 500, ''ml'')"
    using T [THEN conjunct2, THEN conjunct1, rule_format, OF conjI, OF n1' r2'] pn lo by simp
  have n3: "\<not> (\<exists>ws num ls. spec_rule1 decimal_numeral ''Plain Water'' ws num ls)"
    using rule1_last_each [of decimal_numeral "''Plain Water''"] sp(3) lo(5) by auto
  have "size_of_token ''Water'' = None"
    by (simp add: size_of_token_def match_size_token_def is_digit_def)
  then have n4: "\<not> (\<exists>ws num ls. spec_rule2 decimal_numeral ''Plain Water'' ws num ls)"
    using rule2_decimal_token [of "''Plain Water''"] sp(3) by auto
  have c: "extract_size_and_unit (Some ''Plain Water'') = (Some ''Plain Water'', 1, ''each'')"
    using T [THEN conjunct2, THEN conjunct2, THEN conjunct1, rule_format, OF conjI, OF n3 n4]
    by simp
  from a b b' c show ?thesis by simp
qed

text \<open>
  C5 as stated reads the size token as digits followed by letters. Then no rule applies to
  \<^verbatim>\<open>Milk 2.5kg\<close> and the name would come back unchanged; the source's pattern accepts the
  decimal fraction and strips the token.
\<close>

theorem extract_size_and_unit_decimal_token:
  "\<not> (\<exists>ws num ls. spec_rule1 all_digits ''Milk 2.5kg'' ws num ls) \<and>
   \<not> (\<exists>ws num ls. spec_rule2 all_digits ''Milk 2.5kg'' ws num ls) \<and>
   extract_size_and_unit (Some ''Milk 2.5kg'') = (Some ''Milk'', 5 / 2, ''kg'') \<and>
   extract_size_and_unit (Some ''Milk 2.5kg'') \<noteq> (Some ''Milk 2.5kg'', 1, ''each'')"
proof -
  have sp: "py_split ''Milk 2.5kg'' = [''Milk'', ''2.5kg'']"
    by (simp add: py_split_def is_space_def)
  have "lower ''2.5kg'' \<noteq> ''each''" by (simp add: lower_def to_lower_def upper_chars_def lower_chars_def)
  then have a: "\<not> (\<exists>ws num ls. spec_rule1 all_digits ''Milk 2.5kg'' ws num ls)"
    using rule1_last_each [of all_digits "''Milk 2.5kg''"] sp by auto
  have b: "\<not> (\<exists>ws num ls. spec_rule2 all_digits ''Milk 2.5kg'' ws num ls)"
    using rule2_digits_no_dot [of "''Milk 2.5kg''"] sp by auto
  have c: "extract_size_and_unit (Some ''Milk 2.5kg'') = (Some ''Milk'', 5 / 2, ''kg'')"
    by (simp add: extract_defs)
  from a b c show ?thesis by simp
qed

end
